theory Spec2Isabelle
  imports Main "HOL-Library.Word"
begin

unbundle bit_operations_syntax

section \<open>Machine types, memory and faults\<close>

text \<open>
  The library is written for Arduino cores: \<open>uint8_t\<close>, \<open>uint16_t\<close> and \<open>uint32_t\<close> are words
  of that width, and \<open>unsigned long\<close> and \<open>size_t\<close> are 32-bit words (\<open>unsigned long\<close> is 32 bits
  on every Arduino core, \<open>size_t\<close> on the 32-bit ones). Arithmetic on them wraps around.

  A region of memory (an array, or what a pointer points to) is the list of its bytes; the
  length of the list is the extent of the region. Reading or writing beyond it is undefined
  behaviour in C++: the model returns the fault \<open>OutOfBounds\<close> there. The loops of the library
  run until the clock or the transport ends them; they are modelled with a bound on the number
  of rounds, and the handshake loops return \<open>OutOfFuel\<close> when the bound is reached before the
  loop has returned.
\<close>

type_synonym u8 = "8 word"
type_synonym u16 = "16 word"
type_synonym u32 = "32 word"

datatype fault = OutOfBounds | OutOfFuel

text \<open>Sequencing of two steps, the first of which may fault.\<close>

definition then_do :: "fault + 'a \<Rightarrow> ('a \<Rightarrow> fault + 'b) \<Rightarrow> fault + 'b" where
  "then_do m f = (case m of Inl e \<Rightarrow> Inl e | Inr x \<Rightarrow> f x)"

text \<open>\<open>memcpy(dst, src, n)\<close> and \<open>memset(dst, c, n)\<close>, returning the new contents of \<open>dst\<close>.\<close>

definition memcpy :: "u8 list \<Rightarrow> u8 list \<Rightarrow> u32 \<Rightarrow> fault + u8 list" where
  "memcpy dst src n =
     (if length dst < unat n \<or> length src < unat n then Inl OutOfBounds
      else Inr (take (unat n) src @ drop (unat n) dst))"

definition memset :: "u8 list \<Rightarrow> u8 \<Rightarrow> u32 \<Rightarrow> fault + u8 list" where
  "memset dst c n =
     (if length dst < unat n then Inl OutOfBounds
      else Inr (replicate (unat n) c @ drop (unat n) dst))"

text \<open>
  \<open>unpack_unsigned_long(data)\<close> copies \<open>sizeof(unsigned long) = 4\<close> bytes into an
  \<open>unsigned long\<close>; the targets are little-endian. \<open>bytes_of_unsigned_long\<close> is the cast
  \<open>(uint8_t *) &x\<close> that the library uses to lay a 32-bit value out as a payload.
\<close>

definition unpack_unsigned_long :: "u8 list \<Rightarrow> fault + u32" where
  "unpack_unsigned_long data =
     (if length data < 4 then Inl OutOfBounds
      else Inr (ucast (data ! 0) OR push_bit 8 (ucast (data ! 1))
                OR push_bit 16 (ucast (data ! 2)) OR push_bit 24 (ucast (data ! 3))))"

definition bytes_of_unsigned_long :: "u32 \<Rightarrow> u8 list" where
  "bytes_of_unsigned_long x =
     [ucast x, ucast (drop_bit 8 x), ucast (drop_bit 16 x), ucast (drop_bit 24 x)]"

section \<open>CRC-16\<close>

definition crc_16_table :: "u16 list" where
  "crc_16_table = [
    0x0000, 0x1021, 0x2042, 0x3063, 0x4084, 0x50A5, 0x60C6, 0x70E7,
    0x8108, 0x9129, 0xA14A, 0xB16B, 0xC18C, 0xD1AD, 0xE1CE, 0xF1EF,
    0x1231, 0x0210, 0x3273, 0x2252, 0x52B5, 0x4294, 0x72F7, 0x62D6,
    0x9339, 0x8318, 0xB37B, 0xA35A, 0xD3BD, 0xC39C, 0xF3FF, 0xE3DE,
    0x2462, 0x3443, 0x0420, 0x1401, 0x64E6, 0x74C7, 0x44A4, 0x5485,
    0xA56A, 0xB54B, 0x8528, 0x9509, 0xE5EE, 0xF5CF, 0xC5AC, 0xD58D,
    0x3653, 0x2672, 0x1611, 0x0630, 0x76D7, 0x66F6, 0x5695, 0x46B4,
    0xB75B, 0xA77A, 0x9719, 0x8738, 0xF7DF, 0xE7FE, 0xD79D, 0xC7BC,
    0x48C4, 0x58E5, 0x6886, 0x78A7, 0x0840, 0x1861, 0x2802, 0x3823,
    0xC9CC, 0xD9ED, 0xE98E, 0xF9AF, 0x8948, 0x9969, 0xA90A, 0xB92B,
    0x5AF5, 0x4AD4, 0x7AB7, 0x6A96, 0x1A71, 0x0A50, 0x3A33, 0x2A12,
    0xDBFD, 0xCBDC, 0xFBBF, 0xEB9E, 0x9B79, 0x8B58, 0xBB3B, 0xAB1A,
    0x6CA6, 0x7C87, 0x4CE4, 0x5CC5, 0x2C22, 0x3C03, 0x0C60, 0x1C41,
    0xEDAE, 0xFD8F, 0xCDEC, 0xDDCD, 0xAD2A, 0xBD0B, 0x8D68, 0x9D49,
    0x7E97, 0x6EB6, 0x5ED5, 0x4EF4, 0x3E13, 0x2E32, 0x1E51, 0x0E70,
    0xFF9F, 0xEFBE, 0xDFDD, 0xCFFC, 0xBF1B, 0xAF3A, 0x9F59, 0x8F78,
    0x9188, 0x81A9, 0xB1CA, 0xA1EB, 0xD10C, 0xC12D, 0xF14E, 0xE16F,
    0x1080, 0x00A1, 0x30C2, 0x20E3, 0x5004, 0x4025, 0x7046, 0x6067,
    0x83B9, 0x9398, 0xA3FB, 0xB3DA, 0xC33D, 0xD31C, 0xE37F, 0xF35E,
    0x02B1, 0x1290, 0x22F3, 0x32D2, 0x4235, 0x5214, 0x6277, 0x7256,
    0xB5EA, 0xA5CB, 0x95A8, 0x8589, 0xF56E, 0xE54F, 0xD52C, 0xC50D,
    0x34E2, 0x24C3, 0x14A0, 0x0481, 0x7466, 0x6447, 0x5424, 0x4405,
    0xA7DB, 0xB7FA, 0x8799, 0x97B8, 0xE75F, 0xF77E, 0xC71D, 0xD73C,
    0x26D3, 0x36F2, 0x0691, 0x16B0, 0x6657, 0x7676, 0x4615, 0x5634,
    0xD94C, 0xC96D, 0xF90E, 0xE92F, 0x99C8, 0x89E9, 0xB98A, 0xA9AB,
    0x5844, 0x4865, 0x7806, 0x6827, 0x18C0, 0x08E1, 0x3882, 0x28A3,
    0xCB7D, 0xDB5C, 0xEB3F, 0xFB1E, 0x8BF9, 0x9BD8, 0xABBB, 0xBB9A,
    0x4A75, 0x5A54, 0x6A37, 0x7A16, 0x0AF1, 0x1AD0, 0x2AB3, 0x3A92,
    0xFD2E, 0xED0F, 0xDD6C, 0xCD4D, 0xBDAA, 0xAD8B, 0x9DE8, 0x8DC9,
    0x7C26, 0x6C07, 0x5C64, 0x4C45, 0x3CA2, 0x2C83, 0x1CE0, 0x0CC1,
    0xEF1F, 0xFF3E, 0xCF5D, 0xDF7C, 0xAF9B, 0xBFBA, 0x8FD9, 0x9FF8,
    0x6E17, 0x7E36, 0x4E55, 0x5E74, 0x2E93, 0x3EB2, 0x0ED1, 0x1EF0
  ]"

text \<open>
  One round of the loop of \<open>rpc::__crc_16\<close>:
  \<open>crc = __crc_16_table[((crc >> 8) ^ data[i]) & 0xff] ^ (crc << 8)\<close>, the result stored in a
  \<open>uint16_t\<close>. \<open>crc_index\<close> is the index into the table.
\<close>

definition crc_index :: "u8 \<Rightarrow> u16 \<Rightarrow> nat" where
  "crc_index d crc = unat ((drop_bit 8 crc XOR ucast d) AND 0xff)"

definition crc_16_step :: "u8 \<Rightarrow> u16 \<Rightarrow> u16" where
  "crc_16_step d crc = (crc_16_table ! crc_index d crc) XOR push_bit 8 crc"

text \<open>\<open>rpc::__crc_16(data, size)\<close>, on the list of the \<open>size\<close> bytes at \<open>data\<close>.\<close>

definition crc_16 :: "u8 list \<Rightarrow> u16" where
  "crc_16 bytes = fold crc_16_step bytes 0xFFFF"

section \<open>Buffer helpers\<close>

text \<open>\<open>rpc::_zero(data, size)\<close>.\<close>

definition zero_bytes :: "u8 list \<Rightarrow> u32 \<Rightarrow> fault + u8 list" where
  "zero_bytes data sz = memset data 0 sz"

text \<open>
  \<open>rpc::_same(data, size)\<close>: false for \<open>size = 0\<close>; otherwise the loop over the indices from 1 to
  \<open>size - 1\<close> compares each byte with the one before it and returns false at the first
  difference.
\<close>

fun same_loop :: "u8 \<Rightarrow> u8 list \<Rightarrow> nat \<Rightarrow> fault + bool" where
  "same_loop old_data mem 0 = Inr True"
| "same_loop old_data [] (Suc n) = Inl OutOfBounds"
| "same_loop old_data (new_data # mem) (Suc n) =
     (if new_data \<noteq> old_data then Inr False else same_loop new_data mem n)"

definition same :: "u8 list \<Rightarrow> u32 \<Rightarrow> fault + bool" where
  "same data sz =
     (if sz = 0 then Inr False
      else case data of [] \<Rightarrow> Inl OutOfBounds
                      | old_data # mem \<Rightarrow> same_loop old_data mem (unat sz - 1))"

section \<open>Name hash\<close>

text \<open>
  The three overloads of \<open>rpc::_hash\<close>. The overload for flash strings reads each byte into an
  \<open>unsigned char\<close>; the other two read it into a plain \<open>char\<close>, whose signedness the compiler
  chooses (signed with avr-gcc and on x86, unsigned on ARM): \<open>char_signed\<close> is that choice.
  In \<open>((h << 5) + h) ^ c\<close> the byte \<open>c\<close> is converted to \<open>uint32_t\<close>, with sign extension when
  \<open>char\<close> is signed. A string is the list of the bytes at the pointer; the overloads that
  look for the terminating NUL fault when the region has none.
\<close>

definition char_to_u32 :: "bool \<Rightarrow> u8 \<Rightarrow> u32" where
  "char_to_u32 char_signed c = (if char_signed then scast c else ucast c)"

definition hash_round :: "bool \<Rightarrow> u32 \<Rightarrow> u8 \<Rightarrow> u32" where
  "hash_round char_signed h c = (push_bit 5 h + h) XOR char_to_u32 char_signed c"

fun hash_until_nul :: "bool \<Rightarrow> u32 \<Rightarrow> u8 list \<Rightarrow> fault + u32" where
  "hash_until_nul char_signed h [] = Inl OutOfBounds"
| "hash_until_nul char_signed h (c # p) =
     (if c = 0 then Inr h else hash_until_nul char_signed (hash_round char_signed h c) p)"

fun hash_bounded :: "bool \<Rightarrow> u32 \<Rightarrow> u8 list \<Rightarrow> nat \<Rightarrow> fault + u32" where
  "hash_bounded char_signed h name 0 = Inr h"
| "hash_bounded char_signed h [] (Suc n) = Inl OutOfBounds"
| "hash_bounded char_signed h (c # p) (Suc n) =
     (if c = 0 then Inr h else hash_bounded char_signed (hash_round char_signed h c) p n)"

text \<open>\<open>rpc::_hash(const __FlashStringHelper *name)\<close>.\<close>

definition hash_flash :: "u8 list \<Rightarrow> fault + u32" where
  "hash_flash name = hash_until_nul False 5381 name"

text \<open>\<open>rpc::_hash(const char *name, size_t length)\<close>.\<close>

definition hash_length :: "bool \<Rightarrow> u8 list \<Rightarrow> u32 \<Rightarrow> fault + u32" where
  "hash_length char_signed name len = hash_bounded char_signed 5381 name (unat len)"

text \<open>\<open>rpc::_hash(const char *name)\<close>.\<close>

definition hash_name :: "bool \<Rightarrow> u8 list \<Rightarrow> fault + u32" where
  "hash_name char_signed name = hash_until_nul char_signed 5381 name"

text \<open>
  The reference the hash is compared with: djb2 with XOR, \<open>h = 5381\<close> and
  \<open>h = ((h << 5) + h) ^ c\<close> for each byte \<open>c\<close> taken as a value from 0 to 255, in 32-bit
  wrapping arithmetic, over the bytes before the first NUL among the first \<open>len\<close>.
\<close>

definition djb2_xor :: "u8 list \<Rightarrow> u32" where
  "djb2_xor bytes = foldl (\<lambda>h c. (push_bit 5 h + h) XOR ucast c) 5381 bytes"

definition hashed_bytes :: "u8 list \<Rightarrow> nat \<Rightarrow> u8 list" where
  "hashed_bytes name len = takeWhile (\<lambda>c. c \<noteq> 0) (take len name)"

section \<open>The transport and the clock\<close>

text \<open>
  \<open>get_bytes\<close>, \<open>put_bytes\<close>, \<open>_flush\<close> and \<open>millis\<close> are the environment of the protocol code.
  The world holds what the environment will answer and a log of what the code asked:
  \<^item> \<open>rx\<close>: for each coming call of \<open>get_bytes\<close>, the bytes that arrive in time and whether the
    transport accepts them; the call writes the first \<open>size\<close> of these bytes to the buffer and
    returns true when the transport accepts and all \<open>size\<close> bytes arrived. With nothing left
    in \<open>rx\<close>, nothing arrives and the call returns false.
  \<^item> \<open>tx\<close>: the result of each coming call of \<open>put_bytes\<close> (false when nothing is left).
  \<^item> \<open>clock\<close>: the coming readings of \<open>millis()\<close>; \<open>now\<close> is the last reading, returned again
    when no reading is left.
  \<^item> \<open>produced\<close>: what the callback of \<open>stream_writer\<close> will hand out, a pointer to data and a
    length (an empty region of length 0 when nothing is left).
\<close>

datatype io = Flush | Get u32 | Put "u8 list" | Deliver "u8 list"

record world =
  rx :: "(u8 list \<times> bool) list"
  tx :: "bool list"
  clock :: "u32 list"
  now :: u32
  produced :: "(u8 list \<times> u32) list"
  log :: "io list"

definition millis :: "world \<Rightarrow> u32 \<times> world" where
  "millis w = (case clock w of [] \<Rightarrow> (now w, w)
               | t # ts \<Rightarrow> (t, w\<lparr>clock := ts, now := t\<rparr>))"

definition flush :: "world \<Rightarrow> world" where
  "flush w = w\<lparr>log := log w @ [Flush]\<rparr>"

definition get_bytes :: "u8 list \<Rightarrow> u32 \<Rightarrow> u32 \<Rightarrow> world \<Rightarrow> fault + (bool \<times> u8 list \<times> world)" where
  "get_bytes buff sz timeout w =
     (case rx w of
        [] \<Rightarrow> Inr (False, buff, w\<lparr>log := log w @ [Get sz]\<rparr>)
      | (bytes, accepted) # rest \<Rightarrow>
          (let n = min (unat sz) (length bytes) in
           if length buff < n then Inl OutOfBounds
           else Inr (accepted \<and> n = unat sz, take n bytes @ drop n buff,
                     w\<lparr>rx := rest, log := log w @ [Get sz]\<rparr>)))"

definition put_bytes :: "u8 list \<Rightarrow> u32 \<Rightarrow> u32 \<Rightarrow> world \<Rightarrow> fault + (bool \<times> world)" where
  "put_bytes data sz timeout w =
     (if length data < unat sz then Inl OutOfBounds
      else case tx w of
             [] \<Rightarrow> Inr (False, w\<lparr>log := log w @ [Put (take (unat sz) data)]\<rparr>)
           | ok # rest \<Rightarrow> Inr (ok, w\<lparr>tx := rest, log := log w @ [Put (take (unat sz) data)]\<rparr>))"

text \<open>The callback of \<open>stream_writer\<close>, \<open>callback(&out_data, &out_data_len)\<close>.\<close>

definition writer_callback :: "world \<Rightarrow> (u8 list \<times> u32) \<times> world" where
  "writer_callback w = (case produced w of [] \<Rightarrow> (([], 0), w)
                        | p # ps \<Rightarrow> (p, w\<lparr>produced := ps\<rparr>))"

text \<open>The callback of \<open>stream_reader\<close>, \<open>callback(_buff, size)\<close>, when one is given.\<close>

definition reader_callback :: "bool \<Rightarrow> u8 list \<Rightarrow> u32 \<Rightarrow> world \<Rightarrow> world" where
  "reader_callback given buff sz w =
     (if given then w\<lparr>log := log w @ [Deliver (take (unat sz) buff)]\<rparr> else w)"

section \<open>The rpc object\<close>

text \<open>
  The fields of class \<open>rpc\<close> that the code below uses. \<open>buff\<close> is the region \<open>_buff\<close> points to;
  the other fields carry the names of the members without the leading underscores.
\<close>

record rpc =
  buff :: "u8 list"
  buff_len :: u32
  stream_writer_queue_depth_max :: u32
  put_short_timeout_reset :: u32
  get_short_timeout_reset :: u32
  put_short_timeout :: u32
  get_short_timeout :: u32
  put_long_timeout :: u32
  get_long_timeout :: u32

record rpc_master = rpc +
  in_command_header_buf :: "u8 list"
  in_command_data_buf :: "u8 list"
  in_result_header_buf :: "u8 list"
  out_result_header_ack :: "u8 list"
  out_result_data_ack :: "u8 list"

record rpc_slave = rpc +
  in_response_header_buf :: "u8 list"
  in_response_data_buf :: "u8 list"

text \<open>\<open>sizeof\<close> of a member array.\<close>

definition sizeof :: "u8 list \<Rightarrow> u32" where
  "sizeof a = of_nat (length a)"

text \<open>
  Modelled from the spec: the magic values of the four handshake frames, which the header
  \<open>openmvrpc.h\<close> defines and \<open>src/\<close> does not hold; the values are those of the spec's table of
  frame types.
\<close>

definition COMMAND_HEADER_PACKET_MAGIC :: u16 where "COMMAND_HEADER_PACKET_MAGIC = 0x1209"
definition COMMAND_DATA_PACKET_MAGIC :: u16 where "COMMAND_DATA_PACKET_MAGIC = 0x8ADE"
definition RESULT_HEADER_PACKET_MAGIC :: u16 where "RESULT_HEADER_PACKET_MAGIC = 0x6CEB"
definition RESULT_DATA_PACKET_MAGIC :: u16 where "RESULT_DATA_PACKET_MAGIC = 0xF1A5"

section \<open>Packet codec\<close>

text \<open>
  \<open>rpc::_set_packet(buff, magic_value, data, size)\<close> returns the new contents of \<open>buff\<close>:
  the magic in bytes 0 and 1, \<open>size\<close> bytes of \<open>data\<close> from byte 2 (nothing is copied when
  \<open>size\<close> is 0), and the CRC of the first \<open>size + 2\<close> bytes in the two bytes after them.
  A region has fewer than \<open>2^32\<close> bytes, so \<open>size + 2\<close> and \<open>size + 3\<close> do not wrap around when
  the region holds \<open>size + 4\<close> bytes.
\<close>

definition set_packet :: "u8 list \<Rightarrow> u16 \<Rightarrow> u8 list \<Rightarrow> u32 \<Rightarrow> fault + u8 list" where
  "set_packet buff0 magic_value data sz =
     (if length buff0 < unat sz + 4 \<or> (sz \<noteq> 0 \<and> length data < unat sz) then Inl OutOfBounds
      else
        let b1 = buff0[0 := ucast magic_value, 1 := ucast (drop_bit 8 magic_value)];
            b2 = (if sz \<noteq> 0 then take 2 b1 @ take (unat sz) data @ drop (2 + unat sz) b1 else b1);
            crc = crc_16 (take (unat sz + 2) b2)
        in Inr (b2[unat sz + 2 := ucast crc, unat sz + 3 := ucast (drop_bit 8 crc)]))"

text \<open>
  The check of \<open>rpc::_get_packet\<close> on the received buffer: the magic is read from bytes 0 and 1,
  the CRC from bytes \<open>size - 2\<close> and \<open>size - 1\<close>, and both are compared. For \<open>size < 2\<close> the
  indices \<open>size - 2\<close> and \<open>size - 1\<close> wrap around.
\<close>

definition packet_magic :: "u8 list \<Rightarrow> u16" where
  "packet_magic b = ucast (b ! 0) OR push_bit 8 (ucast (b ! 1))"

definition packet_crc :: "u8 list \<Rightarrow> nat \<Rightarrow> u16" where
  "packet_crc b n = ucast (b ! (n - 2)) OR push_bit 8 (ucast (b ! (n - 1)))"

definition check_packet :: "u16 \<Rightarrow> u8 list \<Rightarrow> u32 \<Rightarrow> fault + bool" where
  "check_packet magic_value b sz =
     (if unat sz < 2 \<or> length b < unat sz then Inl OutOfBounds
      else Inr (packet_magic b = magic_value
                \<and> packet_crc b (unat sz) = crc_16 (take (unat sz - 2) b)))"

text \<open>\<open>rpc::_get_packet(magic_value, buff, size, timeout)\<close>, returning the new contents of \<open>buff\<close> too.\<close>

definition get_packet ::
  "u16 \<Rightarrow> u8 list \<Rightarrow> u32 \<Rightarrow> u32 \<Rightarrow> world \<Rightarrow> fault + (bool \<times> u8 list \<times> world)" where
  "get_packet magic_value buff0 sz timeout w =
     then_do (get_bytes buff0 sz timeout w) (\<lambda>(ok, b, w1).
       if \<not> ok then Inr (False, b, w1)
       else then_do (check_packet magic_value b sz) (\<lambda>valid. Inr (valid, b, w1)))"

section \<open>Retry timeouts\<close>

text \<open>
  The update of \<open>_put_short_timeout\<close> and of \<open>_get_short_timeout\<close> after a failed attempt:
  \<open>min((t * 6) / 4, timeout)\<close> in \<open>rpc_master::__put_command\<close> and \<open>rpc_master::__get_result\<close>,
  \<open>min(t + 1, timeout)\<close> in \<open>rpc_slave::__get_command\<close> and \<open>rpc_slave::__put_result\<close>, on
  \<open>unsigned long\<close>.
\<close>

definition master_next_short_timeout :: "u32 \<Rightarrow> u32 \<Rightarrow> u32" where
  "master_next_short_timeout t timeout = min ((t * 6) div 4) timeout"

definition slave_next_short_timeout :: "u32 \<Rightarrow> u32 \<Rightarrow> u32" where
  "slave_next_short_timeout t timeout = min (t + 1) timeout"

definition master_backoff :: "u32 \<Rightarrow> 'a rpc_scheme \<Rightarrow> 'a rpc_scheme" where
  "master_backoff timeout s =
     s\<lparr>put_short_timeout := master_next_short_timeout (put_short_timeout s) timeout,
       get_short_timeout := master_next_short_timeout (get_short_timeout s) timeout\<rparr>"

definition slave_backoff :: "u32 \<Rightarrow> 'a rpc_scheme \<Rightarrow> 'a rpc_scheme" where
  "slave_backoff timeout s =
     s\<lparr>put_short_timeout := slave_next_short_timeout (put_short_timeout s) timeout,
       get_short_timeout := slave_next_short_timeout (get_short_timeout s) timeout\<rparr>"

definition reset_short_timeouts :: "'a rpc_scheme \<Rightarrow> 'a rpc_scheme" where
  "reset_short_timeouts s =
     s\<lparr>put_short_timeout := put_short_timeout_reset s,
       get_short_timeout := get_short_timeout_reset s\<rparr>"

section \<open>Master: sending a command\<close>

text \<open>
  One round of the \<open>while\<close> loop of \<open>rpc_master::__put_command\<close>, up to the comment
  \<open>Avoid timeout livelocking\<close>: the result is true when the round ends in \<open>return true\<close>.
  The results of the calls of \<open>put_bytes\<close> are not looked at, as in the source.
\<close>

definition put_command_attempt ::
  "u8 list \<Rightarrow> u32 \<Rightarrow> rpc_master \<Rightarrow> world \<Rightarrow> fault + (bool \<times> rpc_master \<times> world)" where
  "put_command_attempt out_header sz s w =
     then_do (zero_bytes (in_command_header_buf s) (sizeof (in_command_header_buf s))) (\<lambda>hb.
     then_do (zero_bytes (in_command_data_buf s) (sizeof (in_command_data_buf s))) (\<lambda>db.
     then_do (put_bytes out_header (sizeof out_header) (put_short_timeout s) (flush w)) (\<lambda>(_, w1).
     then_do (get_packet COMMAND_HEADER_PACKET_MAGIC hb (sizeof hb) (get_short_timeout s) w1)
       (\<lambda>(header_ok, hb1, w2).
         if header_ok then
           then_do (put_bytes (buff s) (sz + 4) (put_long_timeout s) w2) (\<lambda>(_, w3).
           then_do (get_packet COMMAND_DATA_PACKET_MAGIC db (sizeof db) (get_short_timeout s) w3)
             (\<lambda>(data_ok, db1, w4).
               Inr (data_ok, s\<lparr>in_command_header_buf := hb1, in_command_data_buf := db1\<rparr>, w4)))
         else Inr (False, s\<lparr>in_command_header_buf := hb1, in_command_data_buf := db\<rparr>, w2)))))"

primrec put_command_loop ::
  "nat \<Rightarrow> u8 list \<Rightarrow> u32 \<Rightarrow> u32 \<Rightarrow> u32 \<Rightarrow> rpc_master \<Rightarrow> world
     \<Rightarrow> fault + (bool \<times> rpc_master \<times> world)" where
  "put_command_loop 0 out_header sz start timeout s w = Inl OutOfFuel"
| "put_command_loop (Suc n) out_header sz start timeout s w =
     (case millis w of (t, w1) \<Rightarrow>
        if t - start < timeout then
          then_do (put_command_attempt out_header sz s w1) (\<lambda>(done, s1, w2).
            if done then Inr (True, s1, w2)
            else put_command_loop n out_header sz start timeout (master_backoff timeout s1) w2)
        else Inr (False, s, w1))"

text \<open>
  \<open>rpc_master::__put_command(command, data, size, timeout)\<close>. The header is
  \<open>{command, size}\<close>, two \<open>uint32_t\<close>; \<open>out_header\<close> is a local array of 12 bytes.
\<close>

definition put_command ::
  "nat \<Rightarrow> u32 \<Rightarrow> u8 list \<Rightarrow> u32 \<Rightarrow> u32 \<Rightarrow> rpc_master \<Rightarrow> world
     \<Rightarrow> fault + (bool \<times> rpc_master \<times> world)" where
  "put_command fuel command data sz timeout s w =
     (if buff_len s < sz + 4 then Inr (False, s, w)
      else
        let s1 = reset_short_timeouts s in
        then_do (set_packet (replicate 12 0) COMMAND_HEADER_PACKET_MAGIC
                   (bytes_of_unsigned_long command @ bytes_of_unsigned_long sz) 8) (\<lambda>out_header.
        then_do (set_packet (buff s1) COMMAND_DATA_PACKET_MAGIC data sz) (\<lambda>b.
          case millis w of (start, w1) \<Rightarrow>
            put_command_loop fuel out_header sz start timeout (s1\<lparr>buff := b\<rparr>) w1)))"

section \<open>Master: fetching the result\<close>

text \<open>
  One round of the loop of \<open>rpc_master::__get_result\<close>: \<open>Some None\<close> stands for \<open>return false\<close>
  inside the loop, \<open>Some (Some (p, n))\<close> for \<open>return true\<close> with \<open>*data = p\<close>, the region at
  \<open>_buff + 2\<close>, and \<open>*size = n\<close>; \<open>None\<close> means that the round falls through to the update of
  the timeouts.
\<close>

definition get_result_attempt ::
  "rpc_master \<Rightarrow> world \<Rightarrow> fault + ((u8 list \<times> u32) option option \<times> rpc_master \<times> world)" where
  "get_result_attempt s w =
     then_do (zero_bytes (in_result_header_buf s) (sizeof (in_result_header_buf s))) (\<lambda>hb.
     then_do (put_bytes (out_result_header_ack s) (sizeof (out_result_header_ack s))
                (put_short_timeout s) (flush w)) (\<lambda>(_, w1).
     then_do (get_packet RESULT_HEADER_PACKET_MAGIC hb (sizeof hb) (get_short_timeout s) w1)
       (\<lambda>(header_ok, hb1, w2).
         let s1 = s\<lparr>in_result_header_buf := hb1\<rparr> in
         if header_ok then
           then_do (unpack_unsigned_long (drop 2 hb1)) (\<lambda>announced.
             let in_result_data_buf_len = announced + 4 in
             if buff_len s1 < in_result_data_buf_len then Inr (Some None, s1, w2)
             else
               then_do (put_bytes (out_result_data_ack s1) (sizeof (out_result_data_ack s1))
                          (put_short_timeout s1) w2) (\<lambda>(_, w3).
               then_do (get_packet RESULT_DATA_PACKET_MAGIC (buff s1) in_result_data_buf_len
                          (get_long_timeout s1) w3) (\<lambda>(data_ok, b, w4).
                 let s2 = s1\<lparr>buff := b\<rparr> in
                 if data_ok then Inr (Some (Some (drop 2 b, in_result_data_buf_len - 4)), s2, w4)
                 else Inr (None, s2, w4))))
         else Inr (None, s1, w2))))"

primrec get_result_loop ::
  "nat \<Rightarrow> u32 \<Rightarrow> u32 \<Rightarrow> rpc_master \<Rightarrow> world
     \<Rightarrow> fault + ((u8 list \<times> u32) option \<times> rpc_master \<times> world)" where
  "get_result_loop 0 start timeout s w = Inl OutOfFuel"
| "get_result_loop (Suc n) start timeout s w =
     (case millis w of (t, w1) \<Rightarrow>
        if t - start < timeout then
          then_do (get_result_attempt s w1) (\<lambda>(r, s1, w2).
            case r of Some returned \<Rightarrow> Inr (returned, s1, w2)
                    | None \<Rightarrow> get_result_loop n start timeout (master_backoff timeout s1) w2)
        else Inr (None, s, w1))"

text \<open>
  \<open>rpc_master::__get_result(data, size, timeout)\<close>: \<open>None\<close> is the result false, and
  \<open>Some (p, n)\<close> the result true with \<open>*data = p\<close> and \<open>*size = n\<close>.
\<close>

definition get_result ::
  "nat \<Rightarrow> u32 \<Rightarrow> rpc_master \<Rightarrow> world \<Rightarrow> fault + ((u8 list \<times> u32) option \<times> rpc_master \<times> world)" where
  "get_result fuel timeout s w =
     (case millis w of (start, w1) \<Rightarrow>
        get_result_loop fuel start timeout (reset_short_timeouts s) w1)"

section \<open>Master: calls\<close>

text \<open>
  \<open>rpc_master::call_no_copy(const char *name, ...)\<close>:
  \<open>__put_command(_hash(name), command_data, command_data_len, send_timeout) ?
   __get_result(result_data, result_data_len, recv_timeout) : false\<close>.
  The same expression computes \<open>result\<close> in \<open>call\<close>, and in \<open>call_no_args\<close> with no command data
  (\<open>NULL\<close>, an empty region, and length 0).
\<close>

definition call_no_copy ::
  "bool \<Rightarrow> nat \<Rightarrow> u8 list \<Rightarrow> u8 list \<Rightarrow> u32 \<Rightarrow> u32 \<Rightarrow> u32 \<Rightarrow> rpc_master \<Rightarrow> world
     \<Rightarrow> fault + ((u8 list \<times> u32) option \<times> rpc_master \<times> world)" where
  "call_no_copy char_signed fuel name command_data command_data_len send_timeout recv_timeout s w =
     then_do (hash_name char_signed name) (\<lambda>command.
     then_do (put_command fuel command command_data command_data_len send_timeout s w)
       (\<lambda>(sent, s1, w1).
         if sent then get_result fuel recv_timeout s1 w1 else Inr (None, s1, w1)))"

text \<open>
  The lines of \<open>call\<close> and \<open>call_no_args\<close> after the exchange:
  \<open>if (return_false_if_received_data_is_zero) result = result && result_size;\<close>,
  then \<open>memcpy\<close> of \<open>min(result_data_len, result_size)\<close> bytes when \<open>result\<close> is true and
  \<open>memset(result_data, 0, result_data_len)\<close> otherwise.
\<close>

definition copy_result ::
  "(u8 list \<times> u32) option \<Rightarrow> u8 list \<Rightarrow> u32 \<Rightarrow> bool \<Rightarrow> fault + (bool \<times> u8 list)" where
  "copy_result exchanged result_data result_data_len return_false_if_received_data_is_zero =
     (case exchanged of
        None \<Rightarrow> then_do (memset result_data 0 result_data_len) (\<lambda>d. Inr (False, d))
      | Some (result_pointer, result_size) \<Rightarrow>
          if return_false_if_received_data_is_zero \<and> result_size = 0
          then then_do (memset result_data 0 result_data_len) (\<lambda>d. Inr (False, d))
          else then_do (memcpy result_data result_pointer (min result_data_len result_size))
                 (\<lambda>d. Inr (True, d)))"

text \<open>\<open>rpc_master::call(const char *name, ...)\<close>, returning the new contents of \<open>result_data\<close>.\<close>

definition call ::
  "bool \<Rightarrow> nat \<Rightarrow> u8 list \<Rightarrow> u8 list \<Rightarrow> u32 \<Rightarrow> u8 list \<Rightarrow> u32 \<Rightarrow> bool \<Rightarrow> u32 \<Rightarrow> u32
     \<Rightarrow> rpc_master \<Rightarrow> world \<Rightarrow> fault + (bool \<times> u8 list \<times> rpc_master \<times> world)" where
  "call char_signed fuel name command_data command_data_len result_data result_data_len
        return_false_if_received_data_is_zero send_timeout recv_timeout s w =
     then_do (call_no_copy char_signed fuel name command_data command_data_len
                send_timeout recv_timeout s w) (\<lambda>(exchanged, s1, w1).
     then_do (copy_result exchanged result_data result_data_len
                return_false_if_received_data_is_zero) (\<lambda>(result, d). Inr (result, d, s1, w1)))"

text \<open>\<open>rpc_master::call_no_args(const char *name, ...)\<close>.\<close>

definition call_no_args ::
  "bool \<Rightarrow> nat \<Rightarrow> u8 list \<Rightarrow> u8 list \<Rightarrow> u32 \<Rightarrow> bool \<Rightarrow> u32 \<Rightarrow> u32
     \<Rightarrow> rpc_master \<Rightarrow> world \<Rightarrow> fault + (bool \<times> u8 list \<times> rpc_master \<times> world)" where
  "call_no_args char_signed fuel name result_data result_data_len
        return_false_if_received_data_is_zero send_timeout recv_timeout s w =
     then_do (call_no_copy char_signed fuel name [] 0 send_timeout recv_timeout s w)
       (\<lambda>(exchanged, s1, w1).
     then_do (copy_result exchanged result_data result_data_len
                return_false_if_received_data_is_zero) (\<lambda>(result, d). Inr (result, d, s1, w1)))"

section \<open>Slave: sending the result\<close>

text \<open>One round of the loop of \<open>rpc_slave::__put_result\<close>.\<close>

definition put_result_attempt ::
  "u8 list \<Rightarrow> u32 \<Rightarrow> rpc_slave \<Rightarrow> world \<Rightarrow> fault + (bool \<times> rpc_slave \<times> world)" where
  "put_result_attempt out_header sz s w =
     then_do (zero_bytes (in_response_header_buf s) (sizeof (in_response_header_buf s))) (\<lambda>hb.
     then_do (zero_bytes (in_response_data_buf s) (sizeof (in_response_data_buf s))) (\<lambda>db.
     then_do (get_packet RESULT_HEADER_PACKET_MAGIC hb (sizeof hb) (get_short_timeout s) (flush w))
       (\<lambda>(header_ok, hb1, w1).
         if header_ok then
           then_do (put_bytes out_header (sizeof out_header) (put_short_timeout s) w1) (\<lambda>(_, w2).
           then_do (get_packet RESULT_DATA_PACKET_MAGIC db (sizeof db) (get_short_timeout s) w2)
             (\<lambda>(data_ok, db1, w3).
               let s1 = s\<lparr>in_response_header_buf := hb1, in_response_data_buf := db1\<rparr> in
               if data_ok then
                 then_do (put_bytes (buff s1) (sz + 4) (put_long_timeout s1) w3) (\<lambda>(_, w4).
                   Inr (True, s1, w4))
               else Inr (False, s1, w3)))
         else Inr (False, s\<lparr>in_response_header_buf := hb1, in_response_data_buf := db\<rparr>, w1))))"

primrec put_result_loop ::
  "nat \<Rightarrow> u8 list \<Rightarrow> u32 \<Rightarrow> u32 \<Rightarrow> u32 \<Rightarrow> rpc_slave \<Rightarrow> world
     \<Rightarrow> fault + (bool \<times> rpc_slave \<times> world)" where
  "put_result_loop 0 out_header sz start timeout s w = Inl OutOfFuel"
| "put_result_loop (Suc n) out_header sz start timeout s w =
     (case millis w of (t, w1) \<Rightarrow>
        if t - start < timeout then
          then_do (put_result_attempt out_header sz s w1) (\<lambda>(done, s1, w2).
            if done then Inr (True, s1, w2)
            else put_result_loop n out_header sz start timeout (slave_backoff timeout s1) w2)
        else Inr (False, s, w1))"

text \<open>\<open>rpc_slave::__put_result(data, size, timeout)\<close>; \<open>out_header\<close> is a local array of 8 bytes.\<close>

definition put_result ::
  "nat \<Rightarrow> u8 list \<Rightarrow> u32 \<Rightarrow> u32 \<Rightarrow> rpc_slave \<Rightarrow> world \<Rightarrow> fault + (bool \<times> rpc_slave \<times> world)" where
  "put_result fuel data sz timeout s w =
     (if buff_len s < sz + 4 then Inr (False, s, w)
      else
        let s1 = reset_short_timeouts s in
        then_do (set_packet (replicate 8 0) RESULT_HEADER_PACKET_MAGIC
                   (bytes_of_unsigned_long sz) 4) (\<lambda>out_header.
        then_do (set_packet (buff s1) RESULT_DATA_PACKET_MAGIC data sz) (\<lambda>b.
          case millis w of (start, w1) \<Rightarrow>
            put_result_loop fuel out_header sz start timeout (s1\<lparr>buff := b\<rparr>) w1)))"

section \<open>Streams\<close>

text \<open>
  The update of the acknowledgement byte, \<open>(lfsr >> 1) ^ ((lfsr & 1) ? 0xB8 : 0x00)\<close> stored in a
  \<open>uint8_t\<close>: of \<open>tx_lfsr\<close> in \<open>rpc::stream_reader\<close> and of \<open>rx_lfsr\<close> in \<open>rpc::stream_writer\<close>.
\<close>

definition reader_lfsr_next :: "u8 \<Rightarrow> u8" where
  "reader_lfsr_next tx_lfsr = drop_bit 1 tx_lfsr XOR (if tx_lfsr AND 1 \<noteq> 0 then 0xB8 else 0x00)"

definition writer_lfsr_next :: "u8 \<Rightarrow> u8" where
  "writer_lfsr_next rx_lfsr = drop_bit 1 rx_lfsr XOR (if rx_lfsr AND 1 \<noteq> 0 then 0xB8 else 0x00)"

text \<open>
  The sequence that the statements about the acknowledgements compare with, in the words of
  the spec: the sequence obtained by starting at state 255 and applying
  \<open>s = (s >> 1) ^ (s & 1 ? 0xB8 : 0)\<close> after each byte; \<open>lfsr_sequence n\<close> is its element number
  \<open>n\<close>, counted from 0.
\<close>

definition lfsr_sequence :: "nat \<Rightarrow> u8" where
  "lfsr_sequence n = ((\<lambda>s. drop_bit 1 s XOR (if s AND 1 \<noteq> 0 then 0xB8 else 0)) ^^ n) 255"

text \<open>
  The local variables of \<open>rpc::stream_reader\<close> in its loop. \<open>acks_put\<close> is not a variable of the
  source: it lists the bytes that the loop has handed to \<open>_stream_put_bytes\<close> as
  acknowledgements, for the statements about them.
\<close>

record reader =
  reader_packet :: "u8 list"
  tx_lfsr :: u8
  acks_put :: "u8 list"

text \<open>
  One round of the loop of \<open>rpc::stream_reader\<close>; the first component of the result is false
  when the round ends in \<open>return\<close>. \<open>given\<close> tells whether \<open>callback\<close> is not null.
\<close>

definition stream_reader_round ::
  "bool \<Rightarrow> u32 \<Rightarrow> reader \<Rightarrow> 'a rpc_scheme \<Rightarrow> world
     \<Rightarrow> fault + (bool \<times> reader \<times> 'a rpc_scheme \<times> world)" where
  "stream_reader_round given read_timeout r s w =
     then_do (get_bytes (reader_packet r) 8 1000 w) (\<lambda>(ok, p, w1).
       let r1 = r\<lparr>reader_packet := p\<rparr> in
       if \<not> ok then Inr (False, r1, s, w1)
       else if packet_magic p \<noteq> 0x542E \<and> packet_crc p 8 \<noteq> crc_16 (take 6 p)
       then Inr (False, r1, s, w1)
       else
         then_do (unpack_unsigned_long (drop 2 p)) (\<lambda>sz.
           if buff_len s < sz then Inr (False, r1, s, w1)
           else
             then_do (get_bytes (buff s) sz read_timeout w1) (\<lambda>(ok, b, w2).
               let s1 = s\<lparr>buff := b\<rparr> in
               if \<not> ok then Inr (False, r1, s1, w2)
               else
                 then_do (put_bytes [tx_lfsr r1] 1 1000 (reader_callback given b sz w2))
                   (\<lambda>(ok, w3).
                     let r2 = r1\<lparr>acks_put := acks_put r1 @ [tx_lfsr r1]\<rparr> in
                     if \<not> ok then Inr (False, r2, s1, w3)
                     else Inr (True, r2\<lparr>tx_lfsr := reader_lfsr_next (tx_lfsr r2)\<rparr>, s1, w3)))))"

text \<open>
  The loop, for at most \<open>n\<close> rounds: the first component of the result is true when the loop
  is still running after them.
\<close>

primrec stream_reader_loop ::
  "nat \<Rightarrow> bool \<Rightarrow> u32 \<Rightarrow> reader \<Rightarrow> 'a rpc_scheme \<Rightarrow> world
     \<Rightarrow> fault + (bool \<times> reader \<times> 'a rpc_scheme \<times> world)" where
  "stream_reader_loop 0 given read_timeout r s w = Inr (True, r, s, w)"
| "stream_reader_loop (Suc n) given read_timeout r s w =
     then_do (stream_reader_round given read_timeout r s w) (\<lambda>(running, r1, s1, w1).
       if running then stream_reader_loop n given read_timeout r1 s1 w1
       else Inr (False, r1, s1, w1))"

text \<open>
  \<open>rpc::stream_reader(callback, queue_depth, read_timeout)\<close>, for at most \<open>n\<close> rounds of its loop.
  \<open>packet\<close> is a local array of 8 bytes; \<open>None\<close> for the reader means that the function has
  returned before the loop.
\<close>

definition stream_reader ::
  "nat \<Rightarrow> bool \<Rightarrow> u32 \<Rightarrow> u32 \<Rightarrow> 'a rpc_scheme \<Rightarrow> world
     \<Rightarrow> fault + (bool \<times> reader option \<times> 'a rpc_scheme \<times> world)" where
  "stream_reader n given queue_depth read_timeout s w =
     then_do (set_packet (replicate 8 0) 0xEDF6 (bytes_of_unsigned_long queue_depth) 4) (\<lambda>p.
     then_do (put_bytes p 8 1000 w) (\<lambda>(ok, w1).
       if \<not> ok then Inr (False, None, s, w1)
       else
         then_do (stream_reader_loop n given read_timeout
                    \<lparr>reader_packet = p, tx_lfsr = 255, acks_put = []\<rparr> s w1)
           (\<lambda>(running, r, s1, w2). Inr (running, Some r, s1, w2))))"

text \<open>
  The local variables of \<open>rpc::stream_writer\<close> in its loop. \<open>frames_put\<close> and \<open>acks_taken\<close> are
  not variables of the source: they count the \<open>STREAM_DATA\<close> frames whose header packet the
  loop has put, and list the acknowledgement bytes it has received and found equal to
  \<open>rx_lfsr\<close>.
\<close>

record writer =
  writer_packet :: "u8 list"
  queue_depth :: u32
  rx_lfsr :: u8
  credits :: u32
  frames_put :: nat
  acks_taken :: "u8 list"

text \<open>The first \<open>if\<close> of the loop of \<open>rpc::stream_writer\<close>: waiting for an acknowledgement.\<close>

definition stream_writer_take_ack :: "writer \<Rightarrow> world \<Rightarrow> fault + (bool \<times> writer \<times> world)" where
  "stream_writer_take_ack wr w =
     (if credits wr \<le> queue_depth wr div 2 then
        then_do (get_bytes (writer_packet wr) 1 1000 w) (\<lambda>(ok, p, w1).
          let wr1 = wr\<lparr>writer_packet := p\<rparr> in
          if \<not> ok \<or> p ! 0 \<noteq> rx_lfsr wr1 then Inr (False, wr1, w1)
          else Inr (True, wr1\<lparr>rx_lfsr := writer_lfsr_next (rx_lfsr wr1),
                               credits := credits wr1 + 1,
                               acks_taken := acks_taken wr1 @ [p ! 0]\<rparr>, w1))
      else Inr (True, wr, w))"

text \<open>The second \<open>if\<close> of the loop: sending a frame, its header packet and then its data.\<close>

definition stream_writer_send :: "u32 \<Rightarrow> writer \<Rightarrow> world \<Rightarrow> fault + (bool \<times> writer \<times> world)" where
  "stream_writer_send write_timeout wr w =
     (if credits wr > 0 then
        case writer_callback w of ((out_data, out_data_len), w1) \<Rightarrow>
          then_do (set_packet (writer_packet wr) 0x542E (bytes_of_unsigned_long out_data_len) 4)
            (\<lambda>p.
              then_do (put_bytes p 8 1000 w1) (\<lambda>(ok, w2).
                let wr1 = wr\<lparr>writer_packet := p, frames_put := Suc (frames_put wr)\<rparr> in
                if \<not> ok then Inr (False, wr1, w2)
                else
                  then_do (put_bytes out_data out_data_len write_timeout w2) (\<lambda>(ok, w3).
                    if \<not> ok then Inr (False, wr1, w3)
                    else Inr (True, wr1\<lparr>credits := credits wr1 - 1\<rparr>, w3))))
      else Inr (True, wr, w))"

definition stream_writer_round :: "u32 \<Rightarrow> writer \<Rightarrow> world \<Rightarrow> fault + (bool \<times> writer \<times> world)" where
  "stream_writer_round write_timeout wr w =
     then_do (stream_writer_take_ack wr w) (\<lambda>(running, wr1, w1).
       if running then stream_writer_send write_timeout wr1 w1
       else Inr (False, wr1, w1))"

primrec stream_writer_loop ::
  "nat \<Rightarrow> u32 \<Rightarrow> writer \<Rightarrow> world \<Rightarrow> fault + (bool \<times> writer \<times> world)" where
  "stream_writer_loop 0 write_timeout wr w = Inr (True, wr, w)"
| "stream_writer_loop (Suc n) write_timeout wr w =
     then_do (stream_writer_round write_timeout wr w) (\<lambda>(running, wr1, w1).
       if running then stream_writer_loop n write_timeout wr1 w1
       else Inr (False, wr1, w1))"

text \<open>
  The lines of \<open>rpc::stream_writer\<close> before its loop: \<open>None\<close> when they end in \<open>return\<close>,
  otherwise the variables with which the loop starts.
\<close>

definition stream_writer_setup :: "'a rpc_scheme \<Rightarrow> world \<Rightarrow> fault + (writer option \<times> world)" where
  "stream_writer_setup s w =
     then_do (get_bytes (replicate 8 0) 8 1000 w) (\<lambda>(ok, p, w1).
       if \<not> ok then Inr (None, w1)
       else if packet_magic p \<noteq> 0xEDF6 \<and> packet_crc p 8 \<noteq> crc_16 (take 6 p)
       then Inr (None, w1)
       else
         then_do (unpack_unsigned_long (drop 2 p)) (\<lambda>requested.
           let depth = max (min requested (stream_writer_queue_depth_max s)) 1 in
           Inr (Some \<lparr>writer_packet = p, queue_depth = depth, rx_lfsr = 255, credits = depth,
                      frames_put = 0, acks_taken = []\<rparr>, w1)))"

text \<open>\<open>rpc::stream_writer(callback, write_timeout)\<close>, for at most \<open>n\<close> rounds of its loop.\<close>

definition stream_writer ::
  "nat \<Rightarrow> u32 \<Rightarrow> 'a rpc_scheme \<Rightarrow> world \<Rightarrow> fault + (bool \<times> writer option \<times> world)" where
  "stream_writer n write_timeout s w =
     then_do (stream_writer_setup s w) (\<lambda>(start, w1).
       case start of
         None \<Rightarrow> Inr (False, None, w1)
       | Some wr \<Rightarrow>
           then_do (stream_writer_loop n write_timeout wr w1)
             (\<lambda>(running, wr1, w2). Inr (running, Some wr1, w2)))"

text \<open>
  Statements about the streams. \<open>acks_in_sequence\<close>: a list of acknowledgement bytes is an
  initial part of the sequence. \<open>flow_ok\<close>: the queue depth is at least 1, the credits do not
  exceed it, and the frames put and not yet acknowledged are the queue depth less the
  credits. \<open>outstanding_ok\<close>: no more acknowledgements were taken than frames were put, and at
  most the queue depth of frames is put and not yet acknowledged.
\<close>

definition acks_in_sequence :: "u8 list \<Rightarrow> bool" where
  "acks_in_sequence acks = (acks = map lfsr_sequence [0..<length acks])"

definition flow_ok :: "writer \<Rightarrow> bool" where
  "flow_ok wr = (1 \<le> queue_depth wr \<and> credits wr \<le> queue_depth wr
     \<and> unat (credits wr) + frames_put wr = unat (queue_depth wr) + length (acks_taken wr))"

definition outstanding_ok :: "writer \<Rightarrow> bool" where
  "outstanding_ok wr = (length (acks_taken wr) \<le> frames_put wr
     \<and> frames_put wr - length (acks_taken wr) \<le> unat (queue_depth wr))"

definition writer_ok :: "writer \<Rightarrow> bool" where
  "writer_ok wr = (outstanding_ok wr
     \<and> acks_in_sequence (acks_taken wr)
     \<and> rx_lfsr wr = lfsr_sequence (length (acks_taken wr)))"

text \<open>Objects and worlds for the examples.\<close>

definition example_rpc :: "u8 list \<Rightarrow> u32 \<Rightarrow> rpc" where
  "example_rpc b depth_max =
     \<lparr>buff = b, buff_len = of_nat (length b), stream_writer_queue_depth_max = depth_max,
      put_short_timeout_reset = 2, get_short_timeout_reset = 2,
      put_short_timeout = 2, get_short_timeout = 2,
      put_long_timeout = 5000, get_long_timeout = 5000\<rparr>"

definition example_world :: "(u8 list \<times> bool) list \<Rightarrow> bool list \<Rightarrow> u32 list \<Rightarrow> world" where
  "example_world received sent readings =
     \<lparr>rx = received, tx = sent, clock = readings, now = 0, produced = [], log = []\<rparr>"

text \<open>
  The constructor \<open>rpc_master::rpc_master(buff, buff_len)\<close> on top of \<open>rpc::rpc\<close>: it lays out
  the two requests that \<open>__get_result\<close> sends. Modelled from the spec: the sizes of the member
  arrays and the initial timeouts, which the header \<open>openmvrpc.h\<close> declares and \<open>src/\<close> does not
  hold. An acknowledgement with an empty payload is a frame of 4 bytes and the \<open>RESULT_HEADER\<close>
  acknowledgement, with its 4-byte length, one of 8 bytes; the short timeouts start at 2 ms.
\<close>

definition rpc_master_init :: "u8 list \<Rightarrow> u32 \<Rightarrow> u32 \<Rightarrow> fault + rpc_master" where
  "rpc_master_init b len long_timeout =
     then_do (set_packet (replicate 4 0) RESULT_HEADER_PACKET_MAGIC [] 0) (\<lambda>header_ack.
     then_do (set_packet (replicate 4 0) RESULT_DATA_PACKET_MAGIC [] 0) (\<lambda>data_ack.
       Inr \<lparr>buff = b, buff_len = len, stream_writer_queue_depth_max = 255,
            put_short_timeout_reset = 2, get_short_timeout_reset = 2,
            put_short_timeout = 2, get_short_timeout = 2,
            put_long_timeout = long_timeout, get_long_timeout = long_timeout,
            in_command_header_buf = replicate 4 0, in_command_data_buf = replicate 4 0,
            in_result_header_buf = replicate 8 0,
            out_result_header_ack = header_ack, out_result_data_ack = data_ack\<rparr>))"

definition example_master :: rpc_master where
  "example_master =
     \<lparr>buff = replicate 16 0, buff_len = 16, stream_writer_queue_depth_max = 255,
      put_short_timeout_reset = 2, get_short_timeout_reset = 2,
      put_short_timeout = 2, get_short_timeout = 2,
      put_long_timeout = 5000, get_long_timeout = 5000,
      in_command_header_buf = replicate 4 0, in_command_data_buf = replicate 4 0,
      in_result_header_buf = replicate 8 0,
      out_result_header_ack = [0xeb, 0x6c, 0x6d, 0x7c],
      out_result_data_ack = [0xa5, 0xf1, 0xba, 0x00]\<rparr>"

definition example_slave :: rpc_slave where
  "example_slave =
     \<lparr>buff = replicate 16 0, buff_len = 16, stream_writer_queue_depth_max = 255,
      put_short_timeout_reset = 2, get_short_timeout_reset = 2,
      put_short_timeout = 2, get_short_timeout = 2,
      put_long_timeout = 5000, get_long_timeout = 5000,
      in_response_header_buf = replicate 4 0, in_response_data_buf = replicate 4 0\<rparr>"

section \<open>Receiving on the SPI and I2C masters\<close>

text \<open>
  \<open>rpc_spi_master::get_bytes(buff, size, timeout)\<close>. \<open>SPI.transfer(buff, size)\<close> replaces the
  \<open>size\<close> bytes of the buffer by the bytes clocked in; \<open>miso i\<close> is the byte that arrives for
  index \<open>i\<close>. The result holds the value returned, the buffer, and the arguments of the calls
  of \<open>delay\<close>.
\<close>

definition rpc_spi_master_get_bytes ::
  "(nat \<Rightarrow> u8) \<Rightarrow> 'a rpc_scheme \<Rightarrow> u8 list \<Rightarrow> u32 \<Rightarrow> u32 \<Rightarrow> fault + (bool \<times> u8 list \<times> u32 list)" where
  "rpc_spi_master_get_bytes miso s buff0 sz timeout =
     (if length buff0 < unat sz then Inl OutOfBounds
      else
        let b = map miso [0..<unat sz] @ drop (unat sz) buff0 in
        then_do (same b sz) (\<lambda>all_same.
          let ok = \<not> all_same in
          Inr (ok, b, if \<not> ok then [get_short_timeout s] else [])))"

text \<open>
  The \<open>for\<close> loop of \<open>rpc_i2c_master::get_bytes\<close>, in steps of 32 bytes. \<open>request i\<close> is what
  \<open>Wire.requestFrom\<close> returns for the request at offset \<open>i\<close>, and \<open>wire i\<close> the byte that
  \<open>Wire.read()\<close> returns for index \<open>i\<close> of the buffer. The result is \<open>ok\<close> and the buffer.
  The counter \<open>i\<close> is a natural number: for a buffer that exists in memory \<open>i + 32\<close> does
  not wrap around in \<open>size_t\<close>.
\<close>

function i2c_request_loop ::
  "(nat \<Rightarrow> nat) \<Rightarrow> (nat \<Rightarrow> u8) \<Rightarrow> nat \<Rightarrow> nat \<Rightarrow> u8 list \<Rightarrow> fault + (bool \<times> u8 list)" where
  "i2c_request_loop request wire i sz b =
     (if i < sz then
        let size_remaining = sz - i;
            request_size = min size_remaining 32
        in if request i \<noteq> request_size then Inr (False, b)
           else if length b < i + request_size then Inl OutOfBounds
           else i2c_request_loop request wire (i + 32) sz
                  (take i b @ map wire [i..<i + request_size] @ drop (i + request_size) b)
      else Inr (True, b))"
  by pat_completeness auto
termination
  by (relation "measure (\<lambda>(request, wire, i, sz, b). sz - i)") auto

text \<open>\<open>rpc_i2c_master::get_bytes(buff, size, timeout)\<close>.\<close>

definition rpc_i2c_master_get_bytes ::
  "(nat \<Rightarrow> nat) \<Rightarrow> (nat \<Rightarrow> u8) \<Rightarrow> 'a rpc_scheme \<Rightarrow> u8 list \<Rightarrow> u32 \<Rightarrow> u32
     \<Rightarrow> fault + (bool \<times> u8 list \<times> u32 list)" where
  "rpc_i2c_master_get_bytes request wire s buff0 sz timeout =
     then_do (i2c_request_loop request wire 0 (unat sz) buff0) (\<lambda>(filled, b).
     then_do (if filled then then_do (same b sz) (\<lambda>all_same. Inr (\<not> all_same))
              else Inr False) (\<lambda>ok.
       Inr (ok, b, if \<not> ok then [get_short_timeout s] else [])))"

section \<open>Properties\<close>

subsection \<open>Sequencing\<close>

lemma then_do_Inr [simp]: "then_do (Inr x) f = f x"
  by (simp add: then_do_def)

lemma then_do_Inl [simp]: "then_do (Inl e) f = Inl e"
  by (simp add: then_do_def)

lemma then_do_eq_Inr:
  "then_do m f = Inr y \<longleftrightarrow> (\<exists>x. m = Inr x \<and> f x = Inr y)"
  by (cases m) simp_all

subsection \<open>The CRC tells any two frames apart that differ in one byte\<close>

lemma crc_16_table_length: "length crc_16_table = 256"
  by (simp add: crc_16_table_def)

lemma crc_16_table_low_distinct: "distinct (map (\<lambda>w. unat (w AND 0xff)) crc_16_table)"
  unfolding crc_16_table_def by simp

lemma crc_16_table_low_inj:
  assumes "i < 256" "j < 256"
    and "crc_16_table ! i AND 0xff = crc_16_table ! j AND 0xff"
  shows "i = j"
proof -
  let ?m = "map (\<lambda>w. unat (w AND 0xff)) crc_16_table"
  have "?m ! i = ?m ! j" using assms by (simp add: crc_16_table_length)
  moreover have "i < length ?m" "j < length ?m" using assms by (simp_all add: crc_16_table_length)
  ultimately show ?thesis using crc_16_table_low_distinct nth_eq_iff_index_eq
    by blast
qed

lemma crc_index_less: "crc_index d crc < 256"
proof -
  have "(drop_bit 8 crc XOR ucast d) AND (0xff::u16) \<le> 0xff"
    by (rule word_and_le1)
  then show ?thesis unfolding crc_index_def by (simp add: word_le_nat_alt)
qed

lemma mask8: "(0xff::u16) = mask 8"
  by (simp add: mask_eq_exp_minus_1)

lemma push8_low: "push_bit 8 (c::u16) AND 0xff = 0"
  unfolding mask8 by (rule bit_eqI) (auto simp: bit_simps)

lemma crc_16_step_inj_crc:
  assumes "crc_16_step d c = crc_16_step d c'"
  shows "c = c'"
proof -
  let ?t = "crc_16_table ! crc_index d c" and ?t' = "crc_16_table ! crc_index d c'"
  from assms have eq: "?t XOR push_bit 8 c = ?t' XOR push_bit 8 c'"
    by (simp add: crc_16_step_def)
  then have "(?t XOR push_bit 8 c) AND 0xff = (?t' XOR push_bit 8 c') AND 0xff" by simp
  then have "?t AND 0xff = ?t' AND 0xff"
    by (simp add: bit.conj_xor_distrib2 push8_low)
  then have idx: "crc_index d c = crc_index d c'"
    using crc_16_table_low_inj crc_index_less by blast
  with eq have lo: "push_bit 8 c = push_bit 8 c'" by (metis bit.xor_left_self)
  from idx have "(drop_bit 8 c XOR ucast d) AND (mask 8 :: u16) = (drop_bit 8 c' XOR ucast d) AND mask 8"
    unfolding crc_index_def mask8 by (rule word_unat_eq_iff [THEN iffD2])
  then have m: "bit ((drop_bit 8 c XOR ucast d) AND (mask 8 :: u16)) n
       = bit ((drop_bit 8 c' XOR ucast d) AND (mask 8 :: u16)) n" for n
    by simp
  have hi: "bit c (n + 8) = bit c' (n + 8)" for n
  proof (cases "n < 8")
    case True
    with m [of n] show ?thesis
      by (auto simp add: bit_and_iff bit_xor_iff bit_mask_iff bit_drop_bit_eq add.commute)
  next
    case False
    then have "\<not> bit c (n + 8)" "\<not> bit c' (n + 8)"
      using bit_imp_le_length [of c "n + 8"] bit_imp_le_length [of c' "n + 8"] by auto
    then show ?thesis by simp
  qed
  show ?thesis
  proof (rule bit_word_eqI)
    fix n assume "n < LENGTH(16)"
    show "bit c n = bit c' n"
    proof (cases "n < 8")
      case True
      from lo have "bit (push_bit 8 c) (n + 8) = bit (push_bit 8 c') (n + 8)" by simp
      with True show ?thesis by (simp add: bit_simps)
    next
      case False
      with hi [of "n - 8"] show ?thesis by simp
    qed
  qed
qed

lemma crc_16_step_inj_data:
  assumes "crc_16_step d c = crc_16_step d' c"
  shows "d = d'"
proof -
  from assms have "crc_16_table ! crc_index d c XOR push_bit 8 c
      = crc_16_table ! crc_index d' c XOR push_bit 8 c"
    by (simp add: crc_16_step_def)
  then have "crc_16_table ! crc_index d c = crc_16_table ! crc_index d' c"
    by (metis bit.xor_left_self xor.commute)
  then have "crc_index d c = crc_index d' c"
    using crc_16_table_low_inj crc_index_less by metis
  then have "(drop_bit 8 c XOR ucast d) AND (mask 8 :: u16) = (drop_bit 8 c XOR ucast d') AND mask 8"
    unfolding crc_index_def mask8 by (rule word_unat_eq_iff [THEN iffD2])
  then have m: "bit ((drop_bit 8 c XOR ucast d) AND (mask 8 :: u16)) n
       = bit ((drop_bit 8 c XOR ucast d') AND (mask 8 :: u16)) n" for n
    by simp
  show ?thesis
  proof (rule bit_word_eqI)
    fix n assume "n < LENGTH(8)"
    with m [of n] show "bit d n = bit d' n"
      by (auto simp add: bit_and_iff bit_xor_iff bit_mask_iff bit_ucast_iff)
  qed
qed

lemma crc_16_fold_inj:
  "fold crc_16_step bs c = fold crc_16_step bs c' \<Longrightarrow> c = c'"
  by (induction bs arbitrary: c c') (auto dest: crc_16_step_inj_crc)

lemma crc_16_single_byte:
  assumes "i < length bs" and "v \<noteq> bs ! i"
  shows "crc_16 (bs[i := v]) \<noteq> crc_16 bs"
proof
  assume eq: "crc_16 (bs[i := v]) = crc_16 bs"
  let ?c = "fold crc_16_step (take i bs) 0xFFFF"
  from assms have upd: "bs[i := v] = take i bs @ v # drop (Suc i) bs"
    by (simp add: upd_conv_take_nth_drop)
  from assms have orig: "bs = take i bs @ bs ! i # drop (Suc i) bs"
    by (simp add: id_take_nth_drop)
  have "fold crc_16_step (drop (Suc i) bs) (crc_16_step v ?c)
        = fold crc_16_step (drop (Suc i) bs) (crc_16_step (bs ! i) ?c)"
    using eq unfolding crc_16_def
    by (subst (asm) upd, subst (asm) (3) orig) simp
  then have "crc_16_step v ?c = crc_16_step (bs ! i) ?c" by (rule crc_16_fold_inj)
  then have "v = bs ! i" by (rule crc_16_step_inj_data)
  with assms show False by simp
qed

subsection \<open>Frames\<close>

lemma le16_split: "ucast (ucast (m::u16) :: u8) OR push_bit 8 (ucast (ucast (drop_bit 8 m) :: u8)) = m"
  by (rule bit_word_eqI) (auto simp add: bit_simps)

lemma le16_inj:
  assumes "(ucast (a::u8) :: u16) OR push_bit 8 (ucast (b::u8)) = ucast (c::u8) OR push_bit 8 (ucast (d::u8))"
  shows "a = c \<and> b = d"
proof -
  from assms have m: "bit ((ucast a :: u16) OR push_bit 8 (ucast b)) n
      = bit ((ucast c :: u16) OR push_bit 8 (ucast d)) n" for n by simp
  have "a = c"
  proof (rule bit_word_eqI)
    fix n assume "n < LENGTH(8)"
    with m [of n] show "bit a n = bit c n" by (auto simp add: bit_simps)
  qed
  moreover have "b = d"
  proof (rule bit_word_eqI)
    fix n assume "n < LENGTH(8)"
    with m [of "n + 8"] show "bit b n = bit d n"
      by (auto simp add: bit_simps dest: bit_imp_le_length)
  qed
  ultimately show ?thesis ..
qed

lemma valid_frame_flip:
  assumes len: "2 \<le> length F"
    and magic: "packet_magic F = m"
    and crc: "packet_crc F (length F) = crc_16 (take (length F - 2) F)"
    and i: "i < length F" and v: "v \<noteq> F ! i"
  shows "\<not> (packet_magic (F[i := v]) = m
            \<and> packet_crc (F[i := v]) (length F) = crc_16 (take (length F - 2) (F[i := v])))"
proof (cases "i < 2")
  case True
  have "packet_magic (F[i := v]) \<noteq> packet_magic F"
  proof
    assume "packet_magic (F[i := v]) = packet_magic F"
    then have "F[i := v] ! 0 = F ! 0 \<and> F[i := v] ! 1 = F ! 1"
      unfolding packet_magic_def by (rule le16_inj)
    moreover from True have "i = 0 \<or> i = 1" by arith
    moreover from len have "0 < length F" "1 < length F" by auto
    ultimately show False using v by auto
  qed
  with magic show ?thesis by simp
next
  case False
  show ?thesis
  proof (cases "i < length F - 2")
    case True
    with False have same: "packet_crc (F[i := v]) (length F) = packet_crc F (length F)"
      by (simp add: packet_crc_def nth_list_update)
    have "take (length F - 2) (F[i := v]) = (take (length F - 2) F)[i := v]"
      by (simp add: take_update_swap)
    moreover have "crc_16 ((take (length F - 2) F)[i := v]) \<noteq> crc_16 (take (length F - 2) F)"
      using True v by (intro crc_16_single_byte) simp_all
    ultimately show ?thesis using same crc by simp
  next
    case hi: False
    then have same: "take (length F - 2) (F[i := v]) = take (length F - 2) F" by simp
    have "packet_crc (F[i := v]) (length F) \<noteq> packet_crc F (length F)"
    proof
      assume "packet_crc (F[i := v]) (length F) = packet_crc F (length F)"
      then have "F[i := v] ! (length F - 2) = F ! (length F - 2)
               \<and> F[i := v] ! (length F - 1) = F ! (length F - 1)"
        unfolding packet_crc_def by (rule le16_inj)
      moreover from hi i have "i = length F - 2 \<or> i = length F - 1" by arith
      ultimately show False using i v len by (auto simp: nth_list_update split: if_splits)
    qed
    with same crc show ?thesis by simp
  qed
qed


lemma check_packet_frame:
  assumes "length F = unat n" "2 \<le> length F"
  shows "check_packet magic (F @ tail) n
         = Inr (packet_magic F = magic \<and> packet_crc F (length F) = crc_16 (take (length F - 2) F))"
proof -
  from assms have "0 < length F" "1 < length F" "length F - 2 < length F" "length F - 1 < length F"
    by auto
  then have "packet_magic (F @ tail) = packet_magic F" "packet_crc (F @ tail) (length F) = packet_crc F (length F)"
    by (simp_all add: packet_magic_def packet_crc_def nth_append)
  then show ?thesis using assms by (simp add: check_packet_def)
qed

lemma get_packet_frame:
  assumes "rx w = (F, True) # rest" "length F = unat n" "2 \<le> length F" "length F \<le> length rbuf"
  shows "get_packet magic rbuf n t w
         = Inr (packet_magic F = magic \<and> packet_crc F (length F) = crc_16 (take (length F - 2) F),
                F @ drop (length F) rbuf, w\<lparr>rx := rest, log := log w @ [Get n]\<rparr>)"
  using assms by (simp add: get_packet_def get_bytes_def check_packet_frame)

lemma take2_update: "2 \<le> length R \<Longrightarrow> take 2 (R[0 := a, Suc 0 := b]) = [a, b]"
  by (cases R; cases "tl R") (auto simp: take_Suc_conv_app_nth numeral_2_eq_2)

lemma drop_update2: "drop (2 + n) (R[0 := a, 1 := b]) = drop (2 + n) R"
  by simp

lemma set_packet_frame:
  fixes magic :: u16 and sz :: u32 and data buff0 :: "u8 list"
  assumes fits: "unat sz + 4 \<le> length buff0" "unat sz \<le> length data"
  defines "H \<equiv> [ucast magic, ucast (drop_bit 8 magic)] @ take (unat sz) data"
  shows "\<exists>b. set_packet buff0 magic data sz = Inr b \<and> length b = length buff0
     \<and> take (unat sz + 4) b = H @ [ucast (crc_16 H), ucast (drop_bit 8 (crc_16 H))]"
proof -
  let ?n = "unat sz"
  let ?b1 = "buff0[0 := ucast magic, 1 := ucast (drop_bit 8 magic)]"
  let ?R = "drop (2 + ?n) buff0"
  let ?b2 = "take 2 ?b1 @ take ?n data @ drop (2 + ?n) ?b1"
  have lenH: "length H = ?n + 2" using fits by (simp add: H_def)
  have lenR: "2 \<le> length ?R" using fits by simp
  have b2: "?b2 = H @ ?R"
    using fits by (simp add: H_def take2_update del: list_update.simps)
  have zero: "?b1 = ?b2" if "sz = 0"
  proof -
    from that have "?b2 = take 2 ?b1 @ drop 2 ?b1" by simp
    then show ?thesis by (simp only: append_take_drop_id)
  qed
  have sp: "set_packet buff0 magic data sz
      = Inr (?b2[?n + 2 := ucast (crc_16 (take (?n + 2) ?b2)),
                 ?n + 3 := ucast (drop_bit 8 (crc_16 (take (?n + 2) ?b2)))])"
    using fits zero unfolding set_packet_def Let_def by (cases "sz = 0") auto
  have tk: "take (?n + 2) ?b2 = H" unfolding b2 using lenH by simp
  let ?c = "crc_16 H"
  have upd: "(H @ ?R)[?n + 2 := ucast ?c, ?n + 3 := ucast (drop_bit 8 ?c)]
      = H @ ?R[0 := ucast ?c, 1 := ucast (drop_bit 8 ?c)]"
    using lenH by (simp add: list_update_append)
  have res: "set_packet buff0 magic data sz
      = Inr (H @ ?R[0 := ucast ?c, 1 := ucast (drop_bit 8 ?c)])"
    by (simp only: sp tk) (simp only: b2 upd)
  have "take (?n + 4) (H @ ?R[0 := ucast ?c, 1 := ucast (drop_bit 8 ?c)])
      = H @ take 2 (?R[0 := ucast ?c, 1 := ucast (drop_bit 8 ?c)])"
    using lenH by simp
  also have "\<dots> = H @ [ucast ?c, ucast (drop_bit 8 ?c)]"
    using lenR by (simp add: take2_update del: list_update.simps)
  finally have tk4: "take (?n + 4) (H @ ?R[0 := ucast ?c, 1 := ucast (drop_bit 8 ?c)])
      = H @ [ucast ?c, ucast (drop_bit 8 ?c)]" .
  have len: "length (H @ ?R[0 := ucast ?c, 1 := ucast (drop_bit 8 ?c)]) = length buff0"
    using lenH fits by simp
  from res tk4 len show ?thesis by blast
qed

subsection \<open>C1: round trip of the codec, and detection of a changed byte\<close>

text \<open>
  C1. Let the payload length \<open>sz\<close> fit the buffer: the buffer holds \<open>sz + 4\<close> bytes and \<open>data\<close>
  holds \<open>sz\<close> bytes. Then \<open>_set_packet\<close> succeeds, for every magic value and payload; when the
  \<open>sz + 4\<close> bytes it wrote are what a peer receives, \<open>_get_packet\<close> with the same magic value and
  the total size \<open>sz + 4\<close> returns true; and when any one of these bytes, in the magic, the
  payload or the CRC, arrives with another value, \<open>_get_packet\<close> returns false.
\<close>

theorem packet_round_trip:
  fixes magic :: u16 and sz :: u32 and data buff0 :: "u8 list"
  assumes fits: "unat sz + 4 \<le> length buff0" "unat sz \<le> length data" "length buff0 < 2 ^ 32"
  shows "(\<exists>b. set_packet buff0 magic data sz = Inr b)
    \<and> (\<forall>b rbuf t w rest.
          set_packet buff0 magic data sz = Inr b \<and> unat sz + 4 \<le> length rbuf
          \<and> rx w = (take (unat sz + 4) b, True) # rest
          \<longrightarrow> get_packet magic rbuf (sz + 4) t w
              = Inr (True, take (unat sz + 4) b @ drop (unat sz + 4) rbuf,
                     w\<lparr>rx := rest, log := log w @ [Get (sz + 4)]\<rparr>))
    \<and> (\<forall>b i v rbuf t w rest.
          set_packet buff0 magic data sz = Inr b \<and> i < unat sz + 4 \<and> v \<noteq> b ! i
          \<and> unat sz + 4 \<le> length rbuf
          \<and> rx w = ((take (unat sz + 4) b)[i := v], True) # rest
          \<longrightarrow> get_packet magic rbuf (sz + 4) t w
              = Inr (False, (take (unat sz + 4) b)[i := v] @ drop (unat sz + 4) rbuf,
                     w\<lparr>rx := rest, log := log w @ [Get (sz + 4)]\<rparr>))"
proof -
  let ?n = "unat sz + 4"
  define H where "H = [ucast magic, ucast (drop_bit 8 magic)] @ take (unat sz) data"
  define F where "F = H @ [ucast (crc_16 H), ucast (drop_bit 8 (crc_16 H))]"
  from set_packet_frame [OF fits(1,2), of magic]
  obtain b0 where b0: "set_packet buff0 magic data sz = Inr b0" "length b0 = length buff0"
    "take ?n b0 = F"
    unfolding H_def F_def by blast
  have n: "unat (sz + 4) = ?n"
    using fits by (simp add: unat_word_ariths)
  have lenH: "length H = unat sz + 2" using fits by (simp add: H_def)
  have lenF: "length F = ?n" using lenH by (simp add: F_def)
  have magicF: "packet_magic F = magic"
    by (simp add: F_def H_def packet_magic_def le16_split)
  have crcF: "packet_crc F (length F) = crc_16 (take (length F - 2) F)"
    using lenH by (simp add: F_def packet_crc_def nth_append le16_split)
  have ok: "get_packet magic rbuf (sz + 4) t w
      = Inr (True, F @ drop ?n rbuf, w\<lparr>rx := rest, log := log w @ [Get (sz + 4)]\<rparr>)"
    if "?n \<le> length rbuf" "rx w = (F, True) # rest" for rbuf t w rest
    using get_packet_frame [of w F rest "sz + 4" rbuf magic t] that lenF n magicF crcF
    by simp
  have bad: "get_packet magic rbuf (sz + 4) t w
      = Inr (False, F[i := v] @ drop ?n rbuf, w\<lparr>rx := rest, log := log w @ [Get (sz + 4)]\<rparr>)"
    if "?n \<le> length rbuf" "rx w = (F[i := v], True) # rest" "i < ?n" "v \<noteq> F ! i"
    for rbuf t w rest i v
  proof -
    have "\<not> (packet_magic (F[i := v]) = magic
            \<and> packet_crc (F[i := v]) (length F) = crc_16 (take (length F - 2) (F[i := v])))"
      using that lenF magicF crcF by (intro valid_frame_flip) simp_all
    then show ?thesis
      using get_packet_frame [of w "F[i := v]" rest "sz + 4" rbuf magic t] that lenF n
      by simp
  qed
  have nth: "b0 ! i = F ! i" if "i < ?n" for i
    using that b0(3) by (metis nth_take)
  show ?thesis
  proof (intro conjI allI impI)
    show "\<exists>b. set_packet buff0 magic data sz = Inr b" using b0(1) by blast
  next
    fix b and rbuf :: "u8 list" and t and w :: world and rest
    assume a: "set_packet buff0 magic data sz = Inr b \<and> unat sz + 4 \<le> length rbuf
          \<and> rx w = (take (unat sz + 4) b, True) # rest"
    with b0(1) have "b = b0" by simp
    with a b0(3) have "?n \<le> length rbuf" "rx w = (F, True) # rest" by simp_all
    from ok [OF this] show "get_packet magic rbuf (sz + 4) t w
        = Inr (True, take (unat sz + 4) b @ drop (unat sz + 4) rbuf,
               w\<lparr>rx := rest, log := log w @ [Get (sz + 4)]\<rparr>)"
      using \<open>b = b0\<close> b0(3) by simp
  next
    fix b i v and rbuf :: "u8 list" and t and w :: world and rest
    assume a: "set_packet buff0 magic data sz = Inr b \<and> i < unat sz + 4 \<and> v \<noteq> b ! i
          \<and> unat sz + 4 \<le> length rbuf
          \<and> rx w = ((take (unat sz + 4) b)[i := v], True) # rest"
    with b0(1) have "b = b0" by simp
    with a b0(3) nth [of i]
    have "?n \<le> length rbuf" "rx w = (F[i := v], True) # rest" "i < ?n" "v \<noteq> F ! i"
      by simp_all
    from bad [OF this] show "get_packet magic rbuf (sz + 4) t w
        = Inr (False, (take (unat sz + 4) b)[i := v] @ drop (unat sz + 4) rbuf,
               w\<lparr>rx := rest, log := log w @ [Get (sz + 4)]\<rparr>)"
      using \<open>b = b0\<close> b0(3) by simp
  qed
qed

theorem packet_round_trip_witness:
  "set_packet (replicate 6 0) 0x1209 [0xDE, 0xAD] 2 = Inr [0x09, 0x12, 0xDE, 0xAD, 0xDB, 0x08]
   \<and> get_packet 0x1209 (replicate 6 0) 6 2
        \<lparr>rx = [([0x09, 0x12, 0xDE, 0xAD, 0xDB, 0x08], True)], tx = [], clock = [], now = 0,
         produced = [], log = []\<rparr>
      = Inr (True, [0x09, 0x12, 0xDE, 0xAD, 0xDB, 0x08],
             \<lparr>rx = [], tx = [], clock = [], now = 0, produced = [], log = [Get 6]\<rparr>)
   \<and> get_packet 0x1209 (replicate 6 0) 6 2
        \<lparr>rx = [([0x09, 0x12, 0xDE, 0xAE, 0xDB, 0x08], True)], tx = [], clock = [], now = 0,
         produced = [], log = []\<rparr>
      = Inr (False, [0x09, 0x12, 0xDE, 0xAE, 0xDB, 0x08],
             \<lparr>rx = [], tx = [], clock = [], now = 0, produced = [], log = [Get 6]\<rparr>)"
proof -
  let ?frame = "[0x09, 0x12, 0xDE, 0xAD, 0xDB, 0x08] :: u8 list"
  have enc: "set_packet (replicate 6 0) 0x1209 [0xDE, 0xAD] 2 = Inr ?frame"
    by code_simp
  have fits: "unat (2::u32) + 4 \<le> length (replicate 6 (0::u8))"
    "unat (2::u32) \<le> length [0xDE, 0xAD :: u8]"
    "length (replicate 6 (0::u8)) < 2 ^ 32" by simp_all
  note inst = packet_round_trip [OF fits, of "0x1209"]
  from inst have rt: "set_packet (replicate 6 0) 0x1209 [0xDE, 0xAD] 2 = Inr b
          \<and> unat (2::u32) + 4 \<le> length rbuf
          \<and> rx w = (take (unat (2::u32) + 4) b, True) # rest
          \<longrightarrow> get_packet 0x1209 rbuf (2 + 4) t w
              = Inr (True, take (unat (2::u32) + 4) b @ drop (unat (2::u32) + 4) rbuf,
                     w\<lparr>rx := rest, log := log w @ [Get (2 + 4)]\<rparr>)" for b rbuf t w rest
    by blast
  from inst have fl: "set_packet (replicate 6 0) 0x1209 [0xDE, 0xAD] 2 = Inr b
          \<and> i < unat (2::u32) + 4 \<and> v \<noteq> b ! i
          \<and> unat (2::u32) + 4 \<le> length rbuf
          \<and> rx w = ((take (unat (2::u32) + 4) b)[i := v], True) # rest
          \<longrightarrow> get_packet 0x1209 rbuf (2 + 4) t w
              = Inr (False, (take (unat (2::u32) + 4) b)[i := v] @ drop (unat (2::u32) + 4) rbuf,
                     w\<lparr>rx := rest, log := log w @ [Get (2 + 4)]\<rparr>)" for b i v rbuf t w rest
    by blast
  show ?thesis
    using enc
      rt [of ?frame "replicate 6 0"
             "\<lparr>rx = [(?frame, True)], tx = [], clock = [], now = 0, produced = [], log = []\<rparr>" "[]" 2]
      fl [of ?frame 3 "0xAE" "replicate 6 0"
             "\<lparr>rx = [([0x09, 0x12, 0xDE, 0xAE, 0xDB, 0x08], True)], tx = [], clock = [], now = 0,
               produced = [], log = []\<rparr>" "[]" 2]
    by simp
qed

subsection \<open>Streams: the acknowledgement bytes and the credits\<close>

lemma lfsr_sequence_Suc_writer: "lfsr_sequence (Suc n) = writer_lfsr_next (lfsr_sequence n)"
  by (simp add: lfsr_sequence_def writer_lfsr_next_def)

lemma acks_in_sequence_snoc:
  "acks_in_sequence acks \<Longrightarrow> acks_in_sequence (acks @ [lfsr_sequence (length acks)])"
  by (simp add: acks_in_sequence_def)

lemma unat_credit_plus:
  fixes c q :: u32
  assumes "c \<le> q div 2" "1 \<le> q"
  shows "unat (c + 1) = unat c + 1" "c + 1 \<le> q"
proof -
  have half: "unat (q div 2) = unat q div 2" by (simp add: unat_div)
  have "unat q < 2 ^ 32" using unsigned_less [of q] by simp
  with half have "unat c + 1 < 2 ^ 32" using assms by (simp add: word_le_nat_alt)
  then show one: "unat (c + 1) = unat c + 1" by (simp add: unat_word_ariths)
  from assms have "1 \<le> unat q" "unat c \<le> unat q div 2" using half by (simp_all add: word_le_nat_alt)
  then have "unat c + 1 \<le> unat q" by arith
  with one show "c + 1 \<le> q" by (simp add: word_le_nat_alt)
qed

lemma unat_credit_minus:
  fixes c q :: u32
  assumes "0 < c" "c \<le> q"
  shows "unat (c - 1) = unat c - 1" "0 < unat c" "c - 1 \<le> q"
proof -
  from assms(1) show one: "unat (c - 1) = unat c - 1" and pos: "0 < unat c"
    by (simp_all add: unat_minus_one word_greater_zero_iff unat_gt_0)
  from assms(2) one show "c - 1 \<le> q" by (simp add: word_le_nat_alt)
qed

lemma take_ack_flow:
  assumes "stream_writer_take_ack wr w = Inr (go, wr', w')" and "flow_ok wr"
  shows "flow_ok wr' \<and> queue_depth wr' = queue_depth wr \<and> frames_put wr' = frames_put wr"
  using assms unfolding stream_writer_take_ack_def flow_ok_def
  by (auto simp: then_do_eq_Inr Let_def unat_credit_plus split: if_splits prod.splits)

lemma take_ack_acks:
  assumes "stream_writer_take_ack wr w = Inr (go, wr', w')"
    and "acks_in_sequence (acks_taken wr)" "rx_lfsr wr = lfsr_sequence (length (acks_taken wr))"
  shows "acks_in_sequence (acks_taken wr') \<and> rx_lfsr wr' = lfsr_sequence (length (acks_taken wr'))"
  using assms unfolding stream_writer_take_ack_def
  by (auto simp: then_do_eq_Inr Let_def acks_in_sequence_snoc lfsr_sequence_Suc_writer
      split: if_splits prod.splits)

lemma flow_ok_bound: "flow_ok wr \<Longrightarrow> outstanding_ok wr"
  by (auto simp add: flow_ok_def outstanding_ok_def word_le_nat_alt)

lemma send_flow:
  assumes "stream_writer_send wt wr w = Inr (go, wr', w')" and "flow_ok wr"
  shows "(go \<longrightarrow> flow_ok wr')
       \<and> outstanding_ok wr'
       \<and> queue_depth wr' = queue_depth wr
       \<and> (frames_put wr' \<noteq> frames_put wr \<longrightarrow> 0 < credits wr)"
proof (cases "0 < credits wr")
  case True
  moreover from assms(2) have "credits wr \<le> queue_depth wr" by (simp add: flow_ok_def)
  ultimately have pos: "0 < unat (credits wr)" "unat (credits wr - 1) = unat (credits wr) - 1"
    "credits wr - 1 \<le> queue_depth wr"
    by (simp_all add: unat_credit_minus)
  with assms True show ?thesis
    unfolding stream_writer_send_def flow_ok_def outstanding_ok_def
    by (auto simp: then_do_eq_Inr Let_def word_le_nat_alt split: if_splits prod.splits)
next
  case False
  with assms flow_ok_bound [OF assms(2)] show ?thesis
    unfolding stream_writer_send_def by auto
qed

lemma send_acks:
  assumes "stream_writer_send wt wr w = Inr (go, wr', w')"
  shows "acks_taken wr' = acks_taken wr \<and> rx_lfsr wr' = rx_lfsr wr"
  using assms unfolding stream_writer_send_def
  by (auto simp: then_do_eq_Inr Let_def split: if_splits prod.splits)

lemma stream_writer_round_inv:
  assumes "stream_writer_round wt wr w = Inr (go, wr', w')" and "flow_ok wr" "writer_ok wr"
  shows "writer_ok wr' \<and> (go \<longrightarrow> flow_ok wr') \<and> queue_depth wr' = queue_depth wr"
proof -
  from assms(1) obtain go1 wr1 w1 where
    ack: "stream_writer_take_ack wr w = Inr (go1, wr1, w1)"
    and rest: "(if go1 then stream_writer_send wt wr1 w1 else Inr (False, wr1, w1)) = Inr (go, wr', w')"
    by (auto simp: stream_writer_round_def then_do_eq_Inr)
  from take_ack_flow [OF ack assms(2)] take_ack_acks [OF ack] assms(3)
  have one: "flow_ok wr1" "queue_depth wr1 = queue_depth wr" "acks_in_sequence (acks_taken wr1)"
    "rx_lfsr wr1 = lfsr_sequence (length (acks_taken wr1))"
    by (simp_all add: writer_ok_def)
  show ?thesis
  proof (cases go1)
    case True
    with rest have send: "stream_writer_send wt wr1 w1 = Inr (go, wr', w')" by simp
    from send_flow [OF send one(1)] send_acks [OF send] one show ?thesis
      by (auto simp: writer_ok_def)
  next
    case False
    with rest have "wr' = wr1" "\<not> go" by simp_all
    with one flow_ok_bound [OF one(1)] show ?thesis by (simp add: writer_ok_def)
  qed
qed

lemma stream_writer_loop_inv:
  assumes "stream_writer_loop n wt wr w = Inr (running, wr', w')" and "flow_ok wr" "writer_ok wr"
  shows "writer_ok wr' \<and> (running \<longrightarrow> flow_ok wr') \<and> queue_depth wr' = queue_depth wr"
  using assms
proof (induction n arbitrary: wr w)
  case 0
  then show ?case by simp
next
  case (Suc n)
  from Suc.prems(1) obtain go1 wr1 w1 where
    round: "stream_writer_round wt wr w = Inr (go1, wr1, w1)"
    and rest: "(if go1 then stream_writer_loop n wt wr1 w1 else Inr (False, wr1, w1))
               = Inr (running, wr', w')"
    by (auto simp: then_do_eq_Inr)
  from stream_writer_round_inv [OF round Suc.prems(2,3)]
  have inv: "writer_ok wr1" "go1 \<longrightarrow> flow_ok wr1" "queue_depth wr1 = queue_depth wr"
    by simp_all
  show ?case
  proof (cases go1)
    case True
    with rest inv Suc.IH [of wr1 w1] show ?thesis by simp
  next
    case False
    with rest inv show ?thesis by auto
  qed
qed

lemma stream_writer_setup_start:
  assumes "stream_writer_setup s w = Inr (Some wr, w1)"
  shows "\<exists>p requested. get_bytes (replicate 8 0) 8 1000 w = Inr (True, p, w1)
      \<and> unpack_unsigned_long (drop 2 p) = Inr requested
      \<and> queue_depth wr = max (min requested (stream_writer_queue_depth_max s)) 1
      \<and> credits wr = queue_depth wr \<and> frames_put wr = 0 \<and> acks_taken wr = []
      \<and> rx_lfsr wr = 255"
  using assms unfolding stream_writer_setup_def
  by (auto simp: then_do_eq_Inr Let_def split: if_splits prod.splits)

lemma stream_writer_setup_inv:
  assumes "stream_writer_setup s w = Inr (Some wr, w1)"
  shows "flow_ok wr \<and> writer_ok wr"
  using stream_writer_setup_start [OF assms]
  by (auto simp: flow_ok_def writer_ok_def outstanding_ok_def acks_in_sequence_def lfsr_sequence_def)

lemma lfsr_sequence_Suc_reader: "lfsr_sequence (Suc n) = reader_lfsr_next (lfsr_sequence n)"
  by (simp add: lfsr_sequence_def reader_lfsr_next_def)

lemma stream_reader_round_acks:
  assumes "stream_reader_round given rt r s w = Inr (go, r', s', w')"
    and "acks_in_sequence (acks_put r)" "tx_lfsr r = lfsr_sequence (length (acks_put r))"
  shows "acks_in_sequence (acks_put r') \<and> (go \<longrightarrow> tx_lfsr r' = lfsr_sequence (length (acks_put r')))"
  using assms unfolding stream_reader_round_def
  by (auto simp: then_do_eq_Inr Let_def acks_in_sequence_snoc lfsr_sequence_Suc_reader
       split: if_splits prod.splits)

lemma stream_reader_loop_acks:
  assumes "stream_reader_loop n given rt r s w = Inr (go, r', s', w')"
    and "acks_in_sequence (acks_put r)" "tx_lfsr r = lfsr_sequence (length (acks_put r))"
  shows "acks_in_sequence (acks_put r') \<and> (go \<longrightarrow> tx_lfsr r' = lfsr_sequence (length (acks_put r')))"
  using assms
proof (induction n arbitrary: r s w)
  case 0
  then show ?case by simp
next
  case (Suc n)
  from Suc.prems(1) obtain go1 r1 s1 w1 where
    round: "stream_reader_round given rt r s w = Inr (go1, r1, s1, w1)"
    and rest: "(if go1 then stream_reader_loop n given rt r1 s1 w1 else Inr (False, r1, s1, w1))
               = Inr (go, r', s', w')"
    by (auto simp: then_do_eq_Inr)
  from stream_reader_round_acks [OF round Suc.prems(2,3)]
  have inv: "acks_in_sequence (acks_put r1)" "go1 \<longrightarrow> tx_lfsr r1 = lfsr_sequence (length (acks_put r1))"
    by simp_all
  show ?case
  proof (cases go1)
    case True
    with rest inv Suc.IH [of r1 s1 w1] show ?thesis by simp
  next
    case False
    with rest inv show ?thesis by auto
  qed
qed

lemma stream_reader_acks:
  assumes "stream_reader n given depth rt s w = Inr (running, Some r, s', w')"
  shows "acks_in_sequence (acks_put r) \<and> (running \<longrightarrow> tx_lfsr r = lfsr_sequence (length (acks_put r)))"
proof -
  from assms obtain p w1 where
    "stream_reader_loop n given rt \<lparr>reader_packet = p, tx_lfsr = 255, acks_put = []\<rparr> s w1
       = Inr (running, r, s', w')"
    unfolding stream_reader_def
    by (auto simp: then_do_eq_Inr split: if_splits prod.splits)
  from stream_reader_loop_acks [OF this] show ?thesis
    by (simp add: acks_in_sequence_def lfsr_sequence_def)
qed

lemma stream_writer_inv:
  assumes "stream_writer n wt s w = Inr (running, Some wr, w')"
  shows "writer_ok wr \<and> (running \<longrightarrow> flow_ok wr)
     \<and> (\<exists>wr0 w0. stream_writer_setup s w = Inr (Some wr0, w0) \<and> queue_depth wr = queue_depth wr0)"
proof -
  from assms obtain wr0 w0 where
    start: "stream_writer_setup s w = Inr (Some wr0, w0)"
    and loop: "stream_writer_loop n wt wr0 w0 = Inr (running, wr, w')"
    unfolding stream_writer_def
    by (auto simp: then_do_eq_Inr split: option.splits prod.splits)
  from stream_writer_setup_inv [OF start] stream_writer_loop_inv [OF loop] start
  show ?thesis by auto
qed

lemma reader_run:
  "stream_reader 2 False 1 1000 (example_rpc [0, 0, 0, 0] 255)
     (example_world [([0x2e, 0x54, 2, 0, 0, 0, 0xe7, 0xca], True), ([0xAA, 0xBB], True),
                     ([0x2e, 0x54, 0, 0, 0, 0, 0x8f, 0x27], True), ([], True)]
        [True, True, True] [])
   = Inr (True,
       Some \<lparr>reader_packet = [0x2e, 0x54, 0, 0, 0, 0, 0x8f, 0x27], tx_lfsr = 219, acks_put = [255, 199]\<rparr>,
       (example_rpc [0, 0, 0, 0] 255)\<lparr>buff := [0xAA, 0xBB, 0, 0]\<rparr>,
       \<lparr>rx = [], tx = [], clock = [], now = 0, produced = [],
        log = [Put [0xf6, 0xed, 1, 0, 0, 0, 0x8f, 0x7e], Get 8, Get 2, Put [255], Get 8, Get 0, Put [199]]\<rparr>)"
  by code_simp

lemma writer_run:
  "stream_writer 3 1000 (example_rpc [0, 0, 0, 0] 1)
     (example_world [([0xf6, 0xed, 8, 0, 0, 0, 0xf8, 0x8d], True), ([255], True), ([199], True)]
        [True, True, True, True, True, True] [])
   = Inr (True,
       Some \<lparr>writer_packet = [0x2e, 0x54, 0, 0, 0, 0, 0x8f, 0x27], queue_depth = 1, rx_lfsr = 219,
             credits = 0, frames_put = 3, acks_taken = [255, 199]\<rparr>,
       \<lparr>rx = [], tx = [], clock = [], now = 0, produced = [],
        log = [Get 8, Put [0x2e, 0x54, 0, 0, 0, 0, 0x8f, 0x27], Put [], Get 1,
               Put [0x2e, 0x54, 0, 0, 0, 0, 0x8f, 0x27], Put [], Get 1,
               Put [0x2e, 0x54, 0, 0, 0, 0, 0x8f, 0x27], Put []]\<rparr>)"
  by code_simp

lemma writer_setup_run:
  "stream_writer_setup (example_rpc [0, 0, 0, 0] 1)
     (example_world [([0xf6, 0xed, 8, 0, 0, 0, 0xf8, 0x8d], True), ([255], True), ([199], True)]
        [True, True, True, True, True, True] [])
   = Inr (Some \<lparr>writer_packet = [0xf6, 0xed, 8, 0, 0, 0, 0xf8, 0x8d], queue_depth = 1,
               rx_lfsr = 255, credits = 1, frames_put = 0, acks_taken = []\<rparr>,
       \<lparr>rx = [([255], True), ([199], True)], tx = [True, True, True, True, True, True],
        clock = [], now = 0, produced = [], log = [Get 8]\<rparr>)"
  by code_simp

lemma writer_take_ack_run:
  "stream_writer_take_ack
     \<lparr>writer_packet = [0x2e, 0x54, 0, 0, 0, 0, 0x8f, 0x27], queue_depth = 1, rx_lfsr = 255,
      credits = 0, frames_put = 1, acks_taken = []\<rparr>
     (example_world [([255], True)] [True, True] [])
   = Inr (True,
       \<lparr>writer_packet = [255, 0x54, 0, 0, 0, 0, 0x8f, 0x27], queue_depth = 1, rx_lfsr = 199,
        credits = 1, frames_put = 1, acks_taken = [255]\<rparr>,
       \<lparr>rx = [], tx = [True, True], clock = [], now = 0, produced = [], log = [Get 1]\<rparr>)"
  by code_simp

lemma writer_send_run:
  "stream_writer_send 1000
     \<lparr>writer_packet = [255, 0x54, 0, 0, 0, 0, 0x8f, 0x27], queue_depth = 1, rx_lfsr = 199,
      credits = 1, frames_put = 1, acks_taken = [255]\<rparr>
     \<lparr>rx = [], tx = [True, True], clock = [], now = 0, produced = [([7, 8, 9], 3)], log = [Get 1]\<rparr>
   = Inr (True,
       \<lparr>writer_packet = [0x2e, 0x54, 3, 0, 0, 0, 0x53, 0xbc], queue_depth = 1, rx_lfsr = 199,
        credits = 0, frames_put = 2, acks_taken = [255]\<rparr>,
       \<lparr>rx = [], tx = [], clock = [], now = 0, produced = [],
        log = [Get 1, Put [0x2e, 0x54, 3, 0, 0, 0, 0x53, 0xbc], Put [7, 8, 9]]\<rparr>)"
  by code_simp


subsection \<open>C3: the acknowledgement sequence\<close>

text \<open>
  C3, as the claim states it, fails: the bytes do not run 255, 127, 191, 95, 175. A reader
  that receives two frames acknowledges them with 255 and 199, and the sequence that starts
  at state 255 and applies \<open>s = (s >> 1) ^ (s & 1 ? 0xB8 : 0)\<close> runs 255, 199, 219, 213, 210.
\<close>

theorem lfsr_sequence_counterexample:
  "acks_put (the (fst (snd (projr
     (stream_reader 2 False 1 1000 (example_rpc [0, 0, 0, 0] 255)
        (example_world [([0x2e, 0x54, 2, 0, 0, 0, 0xe7, 0xca], True), ([0xAA, 0xBB], True),
                        ([0x2e, 0x54, 0, 0, 0, 0, 0x8f, 0x27], True), ([], True)]
           [True, True, True] [])))))) = [255, 199]
   \<and> map lfsr_sequence [0..<5] \<noteq> [255, 127, 191, 95, 175]"
proof -
  have "map lfsr_sequence [0..<5] \<noteq> [255, 127, 191, 95, 175]"
    by code_simp
  then show ?thesis by (simp add: reader_run)
qed

text \<open>
  C3, amended. The acknowledgement bytes that \<open>stream_reader\<close> hands to the transport are, in
  order, the elements of the sequence obtained by starting at state 255 and applying
  \<open>s = (s >> 1) ^ (s & 1 ? 0xB8 : 0)\<close> after each byte, and while the loop runs \<open>tx_lfsr\<close> is the
  next element; the bytes that \<open>stream_writer\<close> has accepted as acknowledgements are the
  elements of the same sequence, and \<open>rx_lfsr\<close>, the value it expects next, is the next
  element. The sequence begins 255, 199, 219, 213, 210.
\<close>

theorem stream_acks_follow_lfsr:
  "(stream_reader n given depth rt s w = Inr (running, Some r, s', w')
      \<longrightarrow> acks_put r = map lfsr_sequence [0..<length (acks_put r)]
          \<and> (running \<longrightarrow> tx_lfsr r = lfsr_sequence (length (acks_put r))))
   \<and> (stream_writer m wt t v = Inr (running', Some wr, v')
      \<longrightarrow> acks_taken wr = map lfsr_sequence [0..<length (acks_taken wr)]
          \<and> rx_lfsr wr = lfsr_sequence (length (acks_taken wr)))
   \<and> map lfsr_sequence [0..<5] = [255, 199, 219, 213, 210]"
proof -
  have a: "acks_put r = map lfsr_sequence [0..<length (acks_put r)]
          \<and> (running \<longrightarrow> tx_lfsr r = lfsr_sequence (length (acks_put r)))"
    if "stream_reader n given depth rt s w = Inr (running, Some r, s', w')"
    using stream_reader_acks [OF that] by (simp add: acks_in_sequence_def)
  have b: "acks_taken wr = map lfsr_sequence [0..<length (acks_taken wr)]
          \<and> rx_lfsr wr = lfsr_sequence (length (acks_taken wr))"
    if "stream_writer m wt t v = Inr (running', Some wr, v')"
    using stream_writer_inv [OF that] by (simp add: writer_ok_def acks_in_sequence_def)
  have c: "map lfsr_sequence [0..<5] = [255, 199, 219, 213, 210]"
    by code_simp
  from a b c show ?thesis by blast
qed

theorem stream_acks_follow_lfsr_witness:
  "stream_reader 2 False 1 1000 (example_rpc [0, 0, 0, 0] 255)
     (example_world [([0x2e, 0x54, 2, 0, 0, 0, 0xe7, 0xca], True), ([0xAA, 0xBB], True),
                     ([0x2e, 0x54, 0, 0, 0, 0, 0x8f, 0x27], True), ([], True)]
        [True, True, True] [])
   = Inr (True,
       Some \<lparr>reader_packet = [0x2e, 0x54, 0, 0, 0, 0, 0x8f, 0x27], tx_lfsr = 219, acks_put = [255, 199]\<rparr>,
       (example_rpc [0, 0, 0, 0] 255)\<lparr>buff := [0xAA, 0xBB, 0, 0]\<rparr>,
       \<lparr>rx = [], tx = [], clock = [], now = 0, produced = [],
        log = [Put [0xf6, 0xed, 1, 0, 0, 0, 0x8f, 0x7e], Get 8, Get 2, Put [255], Get 8, Get 0, Put [199]]\<rparr>)
   \<and> [255, 199] = map lfsr_sequence [0..<2] \<and> 219 = lfsr_sequence 2
   \<and> stream_writer 3 1000 (example_rpc [0, 0, 0, 0] 1)
     (example_world [([0xf6, 0xed, 8, 0, 0, 0, 0xf8, 0x8d], True), ([255], True), ([199], True)]
        [True, True, True, True, True, True] [])
   = Inr (True,
       Some \<lparr>writer_packet = [0x2e, 0x54, 0, 0, 0, 0, 0x8f, 0x27], queue_depth = 1, rx_lfsr = 219,
             credits = 0, frames_put = 3, acks_taken = [255, 199]\<rparr>,
       \<lparr>rx = [], tx = [], clock = [], now = 0, produced = [],
        log = [Get 8, Put [0x2e, 0x54, 0, 0, 0, 0, 0x8f, 0x27], Put [], Get 1,
               Put [0x2e, 0x54, 0, 0, 0, 0, 0x8f, 0x27], Put [], Get 1,
               Put [0x2e, 0x54, 0, 0, 0, 0, 0x8f, 0x27], Put []]\<rparr>)"
  using reader_run writer_run
    stream_acks_follow_lfsr [THEN conjunct1, rule_format, OF reader_run]
    stream_acks_follow_lfsr [THEN conjunct2, THEN conjunct1, rule_format, OF writer_run]
  by (simp add: numeral_2_eq_2)

subsection \<open>C4: flow control of the stream writer\<close>

text \<open>
  C4. When \<open>stream_writer\<close> gets past its setup, the queue depth \<open>D\<close> is
  \<open>max(min(requested, _stream_writer_queue_depth_max), 1)\<close> for the depth requested in the setup
  packet, and the loop starts with \<open>D\<close> credits, no frame put and no acknowledgement taken.
  After any number of rounds of the loop, whether it is still running or has returned, at
  most \<open>D\<close> frames are put and not yet acknowledged (\<open>outstanding_ok\<close>); while it runs, the
  frames put less the acknowledgements taken are \<open>D\<close> less the credits, and the credits are
  at most \<open>D\<close> (\<open>flow_ok\<close>), so that the credit counter never wraps below zero. Each of the
  two steps of a round keeps this: taking an acknowledgement keeps \<open>flow_ok\<close>, and sending
  keeps the bound, keeps \<open>flow_ok\<close> when the loop goes on, and puts a frame only when the
  credits are above zero.
\<close>

theorem stream_writer_flow_control:
  "(stream_writer_setup s w = Inr (Some wr0, w0) \<longrightarrow>
      (\<exists>p requested. get_bytes (replicate 8 0) 8 1000 w = Inr (True, p, w0)
         \<and> unpack_unsigned_long (drop 2 p) = Inr requested
         \<and> queue_depth wr0 = max (min requested (stream_writer_queue_depth_max s)) 1)
      \<and> credits wr0 = queue_depth wr0 \<and> frames_put wr0 = 0 \<and> acks_taken wr0 = [])
   \<and> (stream_writer n wt s w = Inr (running, Some wr, w') \<longrightarrow>
      outstanding_ok wr \<and> (running \<longrightarrow> flow_ok wr)
      \<and> (\<exists>wr0 w0. stream_writer_setup s w = Inr (Some wr0, w0) \<and> queue_depth wr = queue_depth wr0))
   \<and> (flow_ok wr1 \<and> stream_writer_take_ack wr1 w1 = Inr (go, wr2, w2) \<longrightarrow>
      flow_ok wr2 \<and> queue_depth wr2 = queue_depth wr1)
   \<and> (flow_ok wr1 \<and> stream_writer_send wt' wr1 w1 = Inr (go', wr3, w3) \<longrightarrow>
      outstanding_ok wr3 \<and> (go' \<longrightarrow> flow_ok wr3) \<and> queue_depth wr3 = queue_depth wr1
      \<and> (frames_put wr3 \<noteq> frames_put wr1 \<longrightarrow> 0 < credits wr1))"
proof -
  have a: "(\<exists>p requested. get_bytes (replicate 8 0) 8 1000 w = Inr (True, p, w0)
         \<and> unpack_unsigned_long (drop 2 p) = Inr requested
         \<and> queue_depth wr0 = max (min requested (stream_writer_queue_depth_max s)) 1)
      \<and> credits wr0 = queue_depth wr0 \<and> frames_put wr0 = 0 \<and> acks_taken wr0 = []"
    if "stream_writer_setup s w = Inr (Some wr0, w0)"
    using stream_writer_setup_start [OF that] by blast
  have b: "outstanding_ok wr \<and> (running \<longrightarrow> flow_ok wr)
      \<and> (\<exists>wr0 w0. stream_writer_setup s w = Inr (Some wr0, w0) \<and> queue_depth wr = queue_depth wr0)"
    if "stream_writer n wt s w = Inr (running, Some wr, w')"
    using stream_writer_inv [OF that] by (simp add: writer_ok_def)
  have c: "flow_ok wr2 \<and> queue_depth wr2 = queue_depth wr1"
    if "flow_ok wr1" "stream_writer_take_ack wr1 w1 = Inr (go, wr2, w2)"
    using take_ack_flow [OF that(2,1)] by simp
  have d: "outstanding_ok wr3 \<and> (go' \<longrightarrow> flow_ok wr3) \<and> queue_depth wr3 = queue_depth wr1
      \<and> (frames_put wr3 \<noteq> frames_put wr1 \<longrightarrow> 0 < credits wr1)"
    if "flow_ok wr1" "stream_writer_send wt' wr1 w1 = Inr (go', wr3, w3)"
    using send_flow [OF that(2,1)] by simp
  from a b c d show ?thesis by blast
qed

theorem stream_writer_flow_control_witness:
  "stream_writer 3 1000 (example_rpc [0, 0, 0, 0] 1)
     (example_world [([0xf6, 0xed, 8, 0, 0, 0, 0xf8, 0x8d], True), ([255], True), ([199], True)]
        [True, True, True, True, True, True] [])
   = Inr (True,
       Some \<lparr>writer_packet = [0x2e, 0x54, 0, 0, 0, 0, 0x8f, 0x27], queue_depth = 1, rx_lfsr = 219,
             credits = 0, frames_put = 3, acks_taken = [255, 199]\<rparr>,
       \<lparr>rx = [], tx = [], clock = [], now = 0, produced = [],
        log = [Get 8, Put [0x2e, 0x54, 0, 0, 0, 0, 0x8f, 0x27], Put [], Get 1,
               Put [0x2e, 0x54, 0, 0, 0, 0, 0x8f, 0x27], Put [], Get 1,
               Put [0x2e, 0x54, 0, 0, 0, 0, 0x8f, 0x27], Put []]\<rparr>)
   \<and> outstanding_ok \<lparr>writer_packet = [0x2e, 0x54, 0, 0, 0, 0, 0x8f, 0x27], queue_depth = 1,
         rx_lfsr = 219, credits = 0, frames_put = 3, acks_taken = [255, 199]\<rparr>
   \<and> flow_ok \<lparr>writer_packet = [0x2e, 0x54, 0, 0, 0, 0, 0x8f, 0x27], queue_depth = 1,
         rx_lfsr = 219, credits = 0, frames_put = 3, acks_taken = [255, 199]\<rparr>
   \<and> stream_writer_setup (example_rpc [0, 0, 0, 0] 1)
     (example_world [([0xf6, 0xed, 8, 0, 0, 0, 0xf8, 0x8d], True), ([255], True), ([199], True)]
        [True, True, True, True, True, True] [])
     = Inr (Some \<lparr>writer_packet = [0xf6, 0xed, 8, 0, 0, 0, 0xf8, 0x8d], queue_depth = 1,
               rx_lfsr = 255, credits = 1, frames_put = 0, acks_taken = []\<rparr>,
       \<lparr>rx = [([255], True), ([199], True)], tx = [True, True, True, True, True, True],
        clock = [], now = 0, produced = [], log = [Get 8]\<rparr>)
   \<and> unpack_unsigned_long (drop 2 [0xf6, 0xed, 8, 0, 0, 0, 0xf8, 0x8d]) = Inr 8
   \<and> (1 :: u32) = max (min 8 (stream_writer_queue_depth_max (example_rpc [0, 0, 0, 0] 1))) 1
   \<and> flow_ok \<lparr>writer_packet = [0x2e, 0x54, 0, 0, 0, 0, 0x8f, 0x27], queue_depth = 1, rx_lfsr = 255,
         credits = 0, frames_put = 1, acks_taken = []\<rparr>
   \<and> stream_writer_take_ack
     \<lparr>writer_packet = [0x2e, 0x54, 0, 0, 0, 0, 0x8f, 0x27], queue_depth = 1, rx_lfsr = 255,
      credits = 0, frames_put = 1, acks_taken = []\<rparr>
     (example_world [([255], True)] [True, True] [])
     = Inr (True,
       \<lparr>writer_packet = [255, 0x54, 0, 0, 0, 0, 0x8f, 0x27], queue_depth = 1, rx_lfsr = 199,
        credits = 1, frames_put = 1, acks_taken = [255]\<rparr>,
       \<lparr>rx = [], tx = [True, True], clock = [], now = 0, produced = [], log = [Get 1]\<rparr>)
   \<and> flow_ok \<lparr>writer_packet = [255, 0x54, 0, 0, 0, 0, 0x8f, 0x27], queue_depth = 1, rx_lfsr = 199,
        credits = 1, frames_put = 1, acks_taken = [255]\<rparr>
   \<and> stream_writer_send 1000
     \<lparr>writer_packet = [255, 0x54, 0, 0, 0, 0, 0x8f, 0x27], queue_depth = 1, rx_lfsr = 199,
      credits = 1, frames_put = 1, acks_taken = [255]\<rparr>
     \<lparr>rx = [], tx = [True, True], clock = [], now = 0, produced = [([7, 8, 9], 3)], log = [Get 1]\<rparr>
     = Inr (True,
       \<lparr>writer_packet = [0x2e, 0x54, 3, 0, 0, 0, 0x53, 0xbc], queue_depth = 1, rx_lfsr = 199,
        credits = 0, frames_put = 2, acks_taken = [255]\<rparr>,
       \<lparr>rx = [], tx = [], clock = [], now = 0, produced = [],
        log = [Get 1, Put [0x2e, 0x54, 3, 0, 0, 0, 0x53, 0xbc], Put [7, 8, 9]]\<rparr>)
   \<and> outstanding_ok \<lparr>writer_packet = [0x2e, 0x54, 3, 0, 0, 0, 0x53, 0xbc], queue_depth = 1,
        rx_lfsr = 199, credits = 0, frames_put = 2, acks_taken = [255]\<rparr>
   \<and> flow_ok \<lparr>writer_packet = [0x2e, 0x54, 3, 0, 0, 0, 0x53, 0xbc], queue_depth = 1,
        rx_lfsr = 199, credits = 0, frames_put = 2, acks_taken = [255]\<rparr>"
proof -
  let ?A = "\<lparr>writer_packet = [0x2e, 0x54, 0, 0, 0, 0, 0x8f, 0x27], queue_depth = 1, rx_lfsr = 255,
      credits = 0, frames_put = 1, acks_taken = []\<rparr>"
  have start: "flow_ok ?A" by (simp add: flow_ok_def)
  note run = stream_writer_flow_control [THEN conjunct2, THEN conjunct1, rule_format, OF writer_run]
  note init = stream_writer_flow_control [THEN conjunct1, rule_format, OF writer_setup_run]
  note ack = stream_writer_flow_control [THEN conjunct2, THEN conjunct2, THEN conjunct1,
      rule_format, OF conjI, OF start writer_take_ack_run]
  note send = stream_writer_flow_control [THEN conjunct2, THEN conjunct2, THEN conjunct2,
      rule_format, OF conjI, OF ack [THEN conjunct1] writer_send_run]
  have req: "unpack_unsigned_long (drop 2 [0xf6, 0xed, 8, 0, 0, 0, 0xf8, 0x8d]) = Inr 8"
    by code_simp
  have depth: "(1 :: u32) = max (min 8 (stream_writer_queue_depth_max (example_rpc [0, 0, 0, 0] 1))) 1"
    by (simp add: example_rpc_def)
  from writer_run writer_setup_run writer_take_ack_run writer_send_run start run init ack send
    req depth
  show ?thesis by simp
qed

subsection \<open>C5: growth of the short timeouts between attempts\<close>







subsection \<open>C8: the name hash\<close>

lemma hash_round_unsigned: "hash_round False h c = (push_bit 5 h + h) XOR ucast c"
  by (simp add: hash_round_def char_to_u32_def)

lemma hash_until_nul_unsigned:
  "0 \<in> set name \<Longrightarrow>
   hash_until_nul False h name
     = Inr (foldl (\<lambda>h c. (push_bit 5 h + h) XOR ucast c) h (takeWhile (\<lambda>c. c \<noteq> 0) name))"
  by (induction name arbitrary: h) (auto simp: hash_round_unsigned)

lemma hash_bounded_unsigned:
  "n \<le> length name \<or> 0 \<in> set name \<Longrightarrow>
   hash_bounded False h name n
     = Inr (foldl (\<lambda>h c. (push_bit 5 h + h) XOR ucast c) h (takeWhile (\<lambda>c. c \<noteq> 0) (take n name)))"
proof (induction name arbitrary: h n)
  case Nil
  then show ?case by (cases n) simp_all
next
  case (Cons c name)
  then show ?case by (cases n) (auto simp: hash_round_unsigned)
qed

lemma hash_overloads_agree:
  "0 \<in> set (take n name) \<Longrightarrow> hash_bounded cs h name n = hash_until_nul cs h name"
  by (induction cs h name n rule: hash_bounded.induct) auto

lemma hash_string_agree:
  "0 \<notin> set bytes \<Longrightarrow>
   hash_bounded cs h (bytes @ [0]) (length bytes) = hash_until_nul cs h (bytes @ [0])"
  by (induction bytes arbitrary: h) auto

lemma hash_unsigned_char_reference:
  "(0 \<in> set name \<longrightarrow> hash_name False name = Inr (djb2_xor (takeWhile (\<lambda>c. c \<noteq> 0) name)))
   \<and> (unat len \<le> length name \<or> 0 \<in> set name \<longrightarrow>
        hash_length False name len = Inr (djb2_xor (hashed_bytes name (unat len))))
   \<and> (0 \<in> set name \<longrightarrow> hash_flash name = Inr (djb2_xor (takeWhile (\<lambda>c. c \<noteq> 0) name)))"
  by (simp add: hash_name_def hash_length_def hash_flash_def djb2_xor_def hashed_bytes_def
      hash_until_nul_unsigned hash_bounded_unsigned)

text \<open>
  C8 holds where plain \<open>char\<close> is unsigned (\<open>hash_unsigned_char_reference\<close> above), and the two
  overloads agree with each other whatever the signedness. Where plain \<open>char\<close> is signed, a
  byte with the high bit set is sign-extended before the XOR: for the name of the single
  byte \<open>0x80\<close> the two overloads for \<open>const char *\<close> return \<open>0xFFFD4A25\<close>, while the reference and the
  overload for flash strings give \<open>0x0002B525\<close>.
\<close>

theorem hash_signed_char_high_bit:
  "hash_name True [0x80, 0] = Inr 0xFFFD4A25
   \<and> hash_length True [0x80, 0] 1 = Inr 0xFFFD4A25
   \<and> djb2_xor (hashed_bytes [0x80, 0] 1) = 0x0002B525
   \<and> hash_flash [0x80, 0] = Inr 0x0002B525"
  by code_simp

subsection \<open>C9: the repeat-byte guard of the SPI and I2C masters\<close>

lemma same_loop_all:
  "n \<le> length mem \<Longrightarrow> same_loop old_data mem n = Inr (\<forall>i<n. mem ! i = old_data)"
proof (induction old_data mem n rule: same_loop.induct)
  case (1 old_data mem)
  then show ?case by simp
next
  case (2 old_data n)
  then show ?case by simp
next
  case (3 old_data new_data mem n)
  show ?case
  proof (cases "new_data = old_data")
    case True
    with 3 have "same_loop old_data (new_data # mem) (Suc n) = Inr (\<forall>i<n. mem ! i = old_data)"
      by simp
    moreover have "(\<forall>i<Suc n. (new_data # mem) ! i = old_data) \<longleftrightarrow> (\<forall>i<n. mem ! i = old_data)"
      using True by (auto simp: less_Suc_eq_0_disj)
    ultimately show ?thesis by simp
  next
    case False
    then show ?thesis by auto
  qed
qed

lemma same_all_equal:
  assumes "unat sz \<le> length data"
  shows "same data sz = Inr (sz \<noteq> 0 \<and> (\<forall>i<unat sz. data ! i = data ! 0))"
proof (cases "sz = 0")
  case True
  then show ?thesis by (simp add: same_def)
next
  case False
  then have pos: "0 < unat sz" by (simp add: unat_gt_0)
  with assms obtain d mem where data: "data = d # mem" by (cases data) auto
  with assms pos have "unat sz - 1 \<le> length mem" by simp
  from same_loop_all [OF this, of d]
  have "same data sz = Inr (\<forall>i<unat sz - 1. mem ! i = d)"
    using False data by (simp add: same_def)
  moreover have "(\<forall>i<unat sz - 1. mem ! i = d) \<longleftrightarrow> (\<forall>i<unat sz. data ! i = data ! 0)"
  proof
    assume a: "\<forall>i<unat sz - 1. mem ! i = d"
    show "\<forall>i<unat sz. data ! i = data ! 0"
    proof (intro allI impI)
      fix i assume "i < unat sz"
      with a data show "data ! i = data ! 0" by (cases i) auto
    qed
  next
    assume a: "\<forall>i<unat sz. data ! i = data ! 0"
    show "\<forall>i<unat sz - 1. mem ! i = d"
    proof (intro allI impI)
      fix i assume "i < unat sz - 1"
      then have "Suc i < unat sz" by simp
      with a data show "mem ! i = d" by fastforce
    qed
  qed
  ultimately show ?thesis using False by simp
qed

lemma spi_get_bytes:
  assumes "unat sz \<le> length buff0"
  shows "rpc_spi_master_get_bytes miso s buff0 sz t
     = Inr (\<not> (sz \<noteq> 0 \<and> (\<forall>i<unat sz. miso i = miso 0)),
            map miso [0..<unat sz] @ drop (unat sz) buff0,
            if sz \<noteq> 0 \<and> (\<forall>i<unat sz. miso i = miso 0) then [get_short_timeout s] else [])"
proof -
  let ?b = "map miso [0..<unat sz] @ drop (unat sz) buff0"
  have nth: "?b ! i = miso i" if "i < unat sz" for i
    using that by (simp add: nth_append)
  have "unat sz \<le> length ?b" by simp
  from same_all_equal [OF this]
  have "same ?b sz = Inr (sz \<noteq> 0 \<and> (\<forall>i<unat sz. ?b ! i = ?b ! 0))" .
  moreover have "(\<forall>i<unat sz. ?b ! i = ?b ! 0) \<longleftrightarrow> (\<forall>i<unat sz. miso i = miso 0)" if "sz \<noteq> 0"
  proof -
    from that have "0 < unat sz" by (simp add: unat_gt_0)
    with nth [of 0] have "?b ! 0 = miso 0" by simp
    with nth show ?thesis by auto
  qed
  ultimately have "same ?b sz = Inr (sz \<noteq> 0 \<and> (\<forall>i<unat sz. miso i = miso 0))"
    by auto
  with assms show ?thesis
    by (simp add: rpc_spi_master_get_bytes_def Let_def)
qed

lemma i2c_request_loop_filled:
  assumes "sz \<le> length b"
    and "\<forall>j < sz. j mod 32 = 0 \<longrightarrow> request j = min (sz - j) 32"
    and "i mod 32 = 0"
  shows "\<exists>res. i2c_request_loop request wire i sz b = Inr (True, res) \<and> length res = length b
     \<and> (\<forall>k<length b. res ! k = (if i \<le> k \<and> k < sz then wire k else b ! k))"
  using assms
proof (induction request wire i sz b rule: i2c_request_loop.induct)
  case (1 request wire i sz b)
  show ?case
  proof (cases "i < sz")
    case False
    then show ?thesis by (subst i2c_request_loop.simps) auto
  next
    case True
    define r where "r = min (sz - i) 32"
    define b' where "b' = take i b @ map wire [i..<i + r] @ drop (i + r) b"
    from True "1.prems" have req: "request i = r" by (simp add: r_def)
    from True "1.prems"(1) have fit: "i + r \<le> length b" by (simp add: r_def)
    have len: "length b' = length b" using fit by (simp add: b'_def)
    have nth: "b' ! k = (if i \<le> k \<and> k < i + r then wire k else b ! k)" if "k < length b" for k
      using that fit by (auto simp: b'_def nth_append)
    have step: "i2c_request_loop request wire i sz b = i2c_request_loop request wire (i + 32) sz b'"
      using True req fit by (subst i2c_request_loop.simps) (simp add: r_def b'_def Let_def)
    from "1.prems" have "(i + 32) mod 32 = 0" by simp
    with "1.IH" [of "sz - i" r] True req fit "1.prems" len
    obtain res where res: "i2c_request_loop request wire (i + 32) sz b' = Inr (True, res)"
      "length res = length b'"
      "\<forall>k<length b'. res ! k = (if i + 32 \<le> k \<and> k < sz then wire k else b' ! k)"
      unfolding r_def b'_def by auto
    have "res ! k = (if i \<le> k \<and> k < sz then wire k else b ! k)" if "k < length b" for k
      using that res(3) len nth [OF that] by (auto simp: r_def)
    with res(1,2) len step show ?thesis by auto
  qed
qed

lemma i2c_get_bytes:
  assumes "unat sz \<le> length buff0"
    and "\<forall>j<unat sz. j mod 32 = 0 \<longrightarrow> request j = min (unat sz - j) 32"
  shows "\<exists>b. rpc_i2c_master_get_bytes request wire s buff0 sz t
       = Inr (\<not> (sz \<noteq> 0 \<and> (\<forall>i<unat sz. wire i = wire 0)), b,
              if sz \<noteq> 0 \<and> (\<forall>i<unat sz. wire i = wire 0) then [get_short_timeout s] else [])
     \<and> length b = length buff0 \<and> (\<forall>k<unat sz. b ! k = wire k)"
proof -
  from i2c_request_loop_filled [OF assms, of 0 wire]
  obtain b where b: "i2c_request_loop request wire 0 (unat sz) buff0 = Inr (True, b)"
    "length b = length buff0" "\<forall>k<length buff0. b ! k = (if k < unat sz then wire k else buff0 ! k)"
    by auto
  with assms(1) have nth: "b ! k = wire k" if "k < unat sz" for k using that by simp
  from b(2) assms(1) have "unat sz \<le> length b" by simp
  from same_all_equal [OF this]
  have "same b sz = Inr (sz \<noteq> 0 \<and> (\<forall>i<unat sz. b ! i = b ! 0))" .
  moreover have "(\<forall>i<unat sz. b ! i = b ! 0) \<longleftrightarrow> (\<forall>i<unat sz. wire i = wire 0)" if "sz \<noteq> 0"
  proof -
    from that have "0 < unat sz" by (simp add: unat_gt_0)
    with nth [of 0] have "b ! 0 = wire 0" by simp
    with nth show ?thesis by auto
  qed
  ultimately have "same b sz = Inr (sz \<noteq> 0 \<and> (\<forall>i<unat sz. wire i = wire 0))"
    by auto
  with b nth show ?thesis
    by (auto simp add: rpc_i2c_master_get_bytes_def)
qed

text \<open>
  C9. On the SPI master every \<open>get_bytes\<close>, and on the I2C master every \<open>get_bytes\<close> whose
  requests were all served in full, so that the buffer was filled, returns false and calls
  \<open>delay\<close> once with the current \<open>_get_short_timeout\<close> exactly when the size is not zero and
  all the received bytes are equal; when two of the received bytes differ it returns true
  and does not call \<open>delay\<close>.
\<close>

theorem repeat_byte_guard:
  "(unat sz \<le> length buff0 \<longrightarrow>
      rpc_spi_master_get_bytes miso s buff0 sz t
       = Inr (\<not> (sz \<noteq> 0 \<and> (\<forall>i<unat sz. miso i = miso 0)),
              map miso [0..<unat sz] @ drop (unat sz) buff0,
              if sz \<noteq> 0 \<and> (\<forall>i<unat sz. miso i = miso 0) then [get_short_timeout s] else []))
   \<and> (unat sz \<le> length buff0
       \<and> (\<forall>j<unat sz. j mod 32 = 0 \<longrightarrow> request j = min (unat sz - j) 32) \<longrightarrow>
      (\<exists>b. rpc_i2c_master_get_bytes request wire s' buff0 sz t'
            = Inr (\<not> (sz \<noteq> 0 \<and> (\<forall>i<unat sz. wire i = wire 0)), b,
                   if sz \<noteq> 0 \<and> (\<forall>i<unat sz. wire i = wire 0) then [get_short_timeout s'] else [])
          \<and> length b = length buff0 \<and> (\<forall>k<unat sz. b ! k = wire k)))"
  using spi_get_bytes [of sz buff0 miso s t] i2c_get_bytes [of sz buff0 request wire s' t']
  by blast

theorem repeat_byte_guard_witness:
  "rpc_spi_master_get_bytes (\<lambda>i::nat. 0xFF :: u8) (example_rpc [] 1) [0, 0, 0, 0] 4 1000
     = Inr (False, [0xFF, 0xFF, 0xFF, 0xFF], [2])
   \<and> rpc_spi_master_get_bytes (\<lambda>i::nat. if i = 3 then 0xFE else 0xFF :: u8) (example_rpc [] 1) [0, 0, 0, 0] 4 1000
     = Inr (True, [0xFF, 0xFF, 0xFF, 0xFE], [])
   \<and> rpc_i2c_master_get_bytes (\<lambda>i::nat. 4 :: nat) (\<lambda>i::nat. 0xFF :: u8) (example_rpc [] 1) [0, 0, 0, 0] 4 1000
     = Inr (False, [0xFF, 0xFF, 0xFF, 0xFF], [2])"
proof -
  have fits: "unat (4 :: u32) \<le> length [0, 0, 0, 0 :: u8]" by simp
  have served: "\<forall>j<unat (4 :: u32). j mod 32 = 0 \<longrightarrow> (\<lambda>i::nat. 4 :: nat) j = min (unat (4 :: u32) - j) 32"
    by simp
  have all_equal: "(\<forall>i<unat (4 :: u32). (\<lambda>i::nat. 0xFF :: u8) i = (\<lambda>i::nat. 0xFF :: u8) 0)" by simp
  have differ: "\<not> (\<forall>i<unat (4 :: u32). (\<lambda>i::nat. if i = 3 then 0xFE else 0xFF :: u8) i
                  = (\<lambda>i::nat. if i = 3 then 0xFE else 0xFF :: u8) 0)"
  proof
    assume "\<forall>i<unat (4 :: u32). (\<lambda>i::nat. if i = 3 then 0xFE else 0xFF :: u8) i
                  = (\<lambda>i::nat. if i = 3 then 0xFE else 0xFF :: u8) 0"
    then have "(\<lambda>i::nat. if i = 3 then 0xFE else 0xFF :: u8) 3 = (\<lambda>i::nat. if i = 3 then 0xFE else 0xFF :: u8) 0"
      by (rule allE [where x = 3]) simp
    then show False by simp
  qed
  have one: "rpc_spi_master_get_bytes (\<lambda>i::nat. 0xFF :: u8) (example_rpc [] 1) [0, 0, 0, 0] 4 1000
     = Inr (False, [0xFF, 0xFF, 0xFF, 0xFF], [2])"
    using repeat_byte_guard [THEN conjunct1, rule_format, OF fits,
        of "\<lambda>i::nat. 0xFF :: u8" "example_rpc [] 1" 1000] all_equal
    by (simp add: example_rpc_def upt_rec)
  have two: "rpc_spi_master_get_bytes (\<lambda>i::nat. if i = 3 then 0xFE else 0xFF :: u8) (example_rpc [] 1)
       [0, 0, 0, 0] 4 1000 = Inr (True, [0xFF, 0xFF, 0xFF, 0xFE], [])"
    using repeat_byte_guard [THEN conjunct1, rule_format, OF fits,
        of "\<lambda>i::nat. if i = 3 then 0xFE else 0xFF :: u8" "example_rpc [] 1" 1000] differ
    by (simp add: example_rpc_def upt_rec)
  from repeat_byte_guard [THEN conjunct2, rule_format, OF conjI, OF fits served,
        of "\<lambda>i::nat. 0xFF :: u8" "example_rpc [] 1" 1000]
  obtain b where b: "rpc_i2c_master_get_bytes (\<lambda>i::nat. 4 :: nat) (\<lambda>i::nat. 0xFF :: u8) (example_rpc [] 1) [0, 0, 0, 0] 4 1000
       = Inr (False, b, [2])" "length b = 4" "\<forall>k<4. b ! k = 0xFF"
    using all_equal by (auto simp: example_rpc_def)
  have "b = [0xFF, 0xFF, 0xFF, 0xFF]"
    using b(2,3) by (intro nth_equalityI) (auto simp: nth_Cons' )
  with one two b(1) show ?thesis by simp
qed

subsection \<open>C10: the stream reader stays inside the scratch buffer\<close>

lemma get_bytes_fits:
  assumes "unat sz \<le> length b"
  shows "\<exists>ok b' w'. get_bytes b sz t w = Inr (ok, b', w') \<and> length b' = length b"
  using assms by (auto simp: get_bytes_def Let_def split: list.splits)

lemma get_bytes_arrived:
  assumes "rx w = (bytes, True) # rest" "length bytes = unat sz" "unat sz \<le> length b"
  shows "get_bytes b sz t w
     = Inr (True, bytes @ drop (unat sz) b, w\<lparr>rx := rest, log := log w @ [Get sz]\<rparr>)"
  using assms by (simp add: get_bytes_def)

lemma put_bytes_fits:
  assumes "unat sz \<le> length data"
  shows "\<exists>ok w'. put_bytes data sz t w = Inr (ok, w')"
  using assms by (auto simp: put_bytes_def split: list.splits)

lemma unpack_fits: "4 \<le> length d \<Longrightarrow> \<exists>x. unpack_unsigned_long d = Inr x"
  by (simp add: unpack_unsigned_long_def)

lemma stream_reader_round_safe:
  assumes "length (reader_packet r) = 8" "length (buff s) = unat (buff_len s)"
  shows "\<exists>go r' s' w'. stream_reader_round given rt r s w = Inr (go, r', s', w')
     \<and> length (reader_packet r') = 8 \<and> length (buff s') = unat (buff_len s')
     \<and> buff_len s' = buff_len s"
proof -
  from get_bytes_fits [of 8 "reader_packet r" 1000 w] assms(1)
  obtain ok p w1 where hdr: "get_bytes (reader_packet r) 8 1000 w = Inr (ok, p, w1)"
    and lenp: "length p = 8" by auto
  from unpack_fits [of "drop 2 p"] lenp
  obtain sz where sz: "unpack_unsigned_long (drop 2 p) = Inr sz" by auto
  show ?thesis
  proof (cases "ok \<and> \<not> (packet_magic p \<noteq> 0x542E \<and> packet_crc p 8 \<noteq> crc_16 (take 6 p))
                \<and> \<not> buff_len s < sz")
    case False
    with hdr sz lenp assms show ?thesis
      by (auto simp: stream_reader_round_def Let_def)
  next
    case True
    then have "unat sz \<le> length (buff s)" using assms(2) by (simp add: word_le_nat_alt not_less)
    from get_bytes_fits [OF this, of rt w1]
    obtain ok2 b w2 where pay: "get_bytes (buff s) sz rt w1 = Inr (ok2, b, w2)"
      and lenb: "length b = length (buff s)" by auto
    from put_bytes_fits [of 1 "[tx_lfsr r]" 1000 "reader_callback given b sz w2"]
    obtain ok3 w3 where ack: "put_bytes [tx_lfsr r] 1 1000 (reader_callback given b sz w2) = Inr (ok3, w3)"
      by auto
    from True hdr sz pay ack lenp lenb assms show ?thesis
      by (auto simp: stream_reader_round_def Let_def)
  qed
qed

lemma stream_reader_loop_safe:
  assumes "length (reader_packet r) = 8" "length (buff s) = unat (buff_len s)"
  shows "\<exists>go r' s' w'. stream_reader_loop n given rt r s w = Inr (go, r', s', w')
     \<and> length (buff s') = unat (buff_len s') \<and> buff_len s' = buff_len s"
  using assms
proof (induction n arbitrary: r s w)
  case 0
  then show ?case by auto
next
  case (Suc n)
  from stream_reader_round_safe [OF Suc.prems, of given rt w]
  obtain go r1 s1 w1 where round: "stream_reader_round given rt r s w = Inr (go, r1, s1, w1)"
    and inv: "length (reader_packet r1) = 8" "length (buff s1) = unat (buff_len s1)"
      "buff_len s1 = buff_len s" by blast
  show ?case
  proof (cases go)
    case True
    from Suc.IH [OF inv(1,2), of w1] round True inv(3) show ?thesis by auto
  next
    case False
    with round inv show ?thesis by auto
  qed
qed

lemma set_packet_fits:
  "unat sz + 4 \<le> length b \<Longrightarrow> unat sz \<le> length data \<Longrightarrow>
   \<exists>p. set_packet b magic data sz = Inr p \<and> length p = length b"
  using set_packet_frame [of sz b data magic] by blast

lemma stream_reader_safe:
  assumes "length (buff s) = unat (buff_len s)"
  shows "\<exists>running r s' w'. stream_reader n given depth rt s w = Inr (running, r, s', w')
     \<and> length (buff s') = unat (buff_len s') \<and> buff_len s' = buff_len s"
proof -
  from set_packet_fits [of 4 "replicate 8 0" "bytes_of_unsigned_long depth" "0xEDF6"]
  obtain p where p: "set_packet (replicate 8 0) 0xEDF6 (bytes_of_unsigned_long depth) 4 = Inr p"
    "length p = 8" by (auto simp: bytes_of_unsigned_long_def)
  from put_bytes_fits [of 8 p 1000 w] p(2)
  obtain ok w1 where put: "put_bytes p 8 1000 w = Inr (ok, w1)" by auto
  show ?thesis
  proof (cases ok)
    case False
    with p put assms show ?thesis by (auto simp add: stream_reader_def)
  next
    case True
    from stream_reader_loop_safe [of "\<lparr>reader_packet = p, tx_lfsr = 255, acks_put = []\<rparr>" s n given rt w1]
      p(2) assms
    obtain go r' s' w' where
      "stream_reader_loop n given rt \<lparr>reader_packet = p, tx_lfsr = 255, acks_put = []\<rparr> s w1
         = Inr (go, r', s', w')"
      "length (buff s') = unat (buff_len s')" "buff_len s' = buff_len s" by auto
    with True p put show ?thesis by (auto simp add: stream_reader_def)
  qed
qed

lemma stream_reader_round_oversize:
  assumes "length (reader_packet r) = 8" "rx w = (p, True) # rest" "length p = 8"
    and "packet_magic p = 0x542E" "packet_crc p 8 = crc_16 (take 6 p)"
    and "unpack_unsigned_long (drop 2 p) = Inr sz" "buff_len s < sz"
  shows "stream_reader_round given rt r s w
     = Inr (False, r\<lparr>reader_packet := p\<rparr>, s, w\<lparr>rx := rest, log := log w @ [Get 8]\<rparr>)"
  using assms get_bytes_arrived [of w p rest 8 "reader_packet r" 1000]
  by (simp add: stream_reader_round_def Let_def)

lemma stream_reader_round_full:
  assumes "length (reader_packet r) = 8" "rx w = (p, True) # (payload, True) # rest" "length p = 8"
    and "packet_magic p = 0x542E" "packet_crc p 8 = crc_16 (take 6 p)"
    and "unpack_unsigned_long (drop 2 p) = Inr (buff_len s)"
    and "length (buff s) = unat (buff_len s)" "length payload = unat (buff_len s)"
    and "tx w = True # oks"
  shows "stream_reader_round given rt r s w
     = Inr (True,
            r\<lparr>reader_packet := p, acks_put := acks_put r @ [tx_lfsr r],
              tx_lfsr := reader_lfsr_next (tx_lfsr r)\<rparr>,
            s\<lparr>buff := payload\<rparr>,
            w\<lparr>rx := rest, tx := oks,
              log := log w @ [Get 8, Get (buff_len s)]
                     @ (if given then [Deliver payload] else []) @ [Put [tx_lfsr r]]\<rparr>)"
proof -
  let ?w1 = "w\<lparr>rx := (payload, True) # rest, log := log w @ [Get 8]\<rparr>"
  let ?w2 = "?w1\<lparr>rx := rest, log := log ?w1 @ [Get (buff_len s)]\<rparr>"
  have one: "get_bytes (reader_packet r) 8 1000 w = Inr (True, p, ?w1)"
    using assms get_bytes_arrived [of w p "(payload, True) # rest" 8 "reader_packet r" 1000]
    by simp
  have two: "get_bytes (buff s) (buff_len s) rt ?w1 = Inr (True, payload, ?w2)"
    using assms get_bytes_arrived [of ?w1 payload rest "buff_len s" "buff s" rt]
    by simp
  show ?thesis
    using assms
    by (simp add: stream_reader_round_def Let_def one two reader_callback_def put_bytes_def)
qed

text \<open>
  C10. When \<open>_buff\<close> has \<open>_buff_len\<close> bytes, \<open>stream_reader\<close> never reads or writes out of
  bounds, whatever arrives and for any number of rounds, and the buffer keeps its length.
  A round that receives a valid \<open>STREAM_DATA\<close> header announcing more than \<open>_buff_len\<close> bytes
  returns after the header, without asking the transport for the payload and without
  touching the buffer. A round that receives a valid header announcing exactly \<open>_buff_len\<close>
  bytes, then these bytes, fills the whole buffer with them, hands them to the callback and
  acknowledges: a stream payload may be as large as the buffer, with no margin of 4 bytes,
  as its frame overhead travels in the 8-byte header packet.
\<close>

theorem stream_reader_bounds:
  "(length (buff s) = unat (buff_len s) \<longrightarrow>
      (\<exists>running r' s' w'. stream_reader n given depth rt s w = Inr (running, r', s', w')
         \<and> length (buff s') = unat (buff_len s') \<and> buff_len s' = buff_len s))
   \<and> (length (reader_packet r) = 8 \<and> rx w = (p, True) # rest \<and> length p = 8
       \<and> packet_magic p = 0x542E \<and> packet_crc p 8 = crc_16 (take 6 p)
       \<and> unpack_unsigned_long (drop 2 p) = Inr sz \<and> buff_len s < sz \<longrightarrow>
      stream_reader_round given rt r s w
        = Inr (False, r\<lparr>reader_packet := p\<rparr>, s, w\<lparr>rx := rest, log := log w @ [Get 8]\<rparr>))
   \<and> (length (reader_packet r) = 8 \<and> rx w = (p, True) # (payload, True) # rest \<and> length p = 8
       \<and> packet_magic p = 0x542E \<and> packet_crc p 8 = crc_16 (take 6 p)
       \<and> unpack_unsigned_long (drop 2 p) = Inr (buff_len s)
       \<and> length (buff s) = unat (buff_len s) \<and> length payload = unat (buff_len s)
       \<and> tx w = True # oks \<longrightarrow>
      stream_reader_round given rt r s w
        = Inr (True,
               r\<lparr>reader_packet := p, acks_put := acks_put r @ [tx_lfsr r],
                 tx_lfsr := reader_lfsr_next (tx_lfsr r)\<rparr>,
               s\<lparr>buff := payload\<rparr>,
               w\<lparr>rx := rest, tx := oks,
                 log := log w @ [Get 8, Get (buff_len s)]
                        @ (if given then [Deliver payload] else []) @ [Put [tx_lfsr r]]\<rparr>))"
  using stream_reader_safe [of s n given depth rt w]
    stream_reader_round_oversize [of r w p rest sz s given rt]
    stream_reader_round_full [of r w p payload rest s oks given rt]
  by blast

theorem stream_reader_bounds_witness:
  "stream_reader_round True 1000 \<lparr>reader_packet = replicate 8 0, tx_lfsr = 255, acks_put = []\<rparr>
      (example_rpc [0, 0] 255)
      (example_world [([0x2e, 0x54, 2, 0, 0, 0, 0xe7, 0xca], True), ([0xAA, 0xBB], True)] [True] [])
    = Inr (True,
           \<lparr>reader_packet = [0x2e, 0x54, 2, 0, 0, 0, 0xe7, 0xca], tx_lfsr = 199, acks_put = [255]\<rparr>,
           (example_rpc [0, 0] 255)\<lparr>buff := [0xAA, 0xBB]\<rparr>,
           \<lparr>rx = [], tx = [], clock = [], now = 0, produced = [],
            log = [Get 8, Get 2, Deliver [0xAA, 0xBB], Put [255]]\<rparr>)
   \<and> stream_reader_round True 1000 \<lparr>reader_packet = replicate 8 0, tx_lfsr = 255, acks_put = []\<rparr>
      (example_rpc [0, 0] 255)
      (example_world [([0x2e, 0x54, 3, 0, 0, 0, 0x53, 0xbc], True), ([0xAA, 0xBB, 0xCC], True)] [True] [])
    = Inr (False,
           \<lparr>reader_packet = [0x2e, 0x54, 3, 0, 0, 0, 0x53, 0xbc], tx_lfsr = 255, acks_put = []\<rparr>,
           example_rpc [0, 0] 255,
           \<lparr>rx = [([0xAA, 0xBB, 0xCC], True)], tx = [True], clock = [], now = 0, produced = [],
            log = [Get 8]\<rparr>)
   \<and> length (buff (example_rpc [0, 0, 0, 0] 255)) = unat (buff_len (example_rpc [0, 0, 0, 0] 255))
   \<and> stream_reader 2 False 1 1000 (example_rpc [0, 0, 0, 0] 255)
     (example_world [([0x2e, 0x54, 2, 0, 0, 0, 0xe7, 0xca], True), ([0xAA, 0xBB], True),
                     ([0x2e, 0x54, 0, 0, 0, 0, 0x8f, 0x27], True), ([], True)]
        [True, True, True] [])
   = Inr (True,
       Some \<lparr>reader_packet = [0x2e, 0x54, 0, 0, 0, 0, 0x8f, 0x27], tx_lfsr = 219, acks_put = [255, 199]\<rparr>,
       (example_rpc [0, 0, 0, 0] 255)\<lparr>buff := [0xAA, 0xBB, 0, 0]\<rparr>,
       \<lparr>rx = [], tx = [], clock = [], now = 0, produced = [],
        log = [Put [0xf6, 0xed, 1, 0, 0, 0, 0x8f, 0x7e], Get 8, Get 2, Put [255], Get 8, Get 0, Put [199]]\<rparr>)
   \<and> length (buff ((example_rpc [0, 0, 0, 0] 255)\<lparr>buff := [0xAA, 0xBB, 0, 0]\<rparr>))
      = unat (buff_len (example_rpc [0, 0, 0, 0] 255))"
proof -
  let ?r = "\<lparr>reader_packet = replicate 8 0, tx_lfsr = 255, acks_put = []\<rparr>"
  let ?h2 = "[0x2e, 0x54, 2, 0, 0, 0, 0xe7, 0xca] :: u8 list"
  let ?h3 = "[0x2e, 0x54, 3, 0, 0, 0, 0x53, 0xbc] :: u8 list"
  have h2: "packet_magic ?h2 = 0x542E" "packet_crc ?h2 8 = crc_16 (take 6 ?h2)"
    "unpack_unsigned_long (drop 2 ?h2) = Inr 2"
    by code_simp+
  have h3: "packet_magic ?h3 = 0x542E" "packet_crc ?h3 8 = crc_16 (take 6 ?h3)"
    "unpack_unsigned_long (drop 2 ?h3) = Inr 3"
    by code_simp+
  have next255: "reader_lfsr_next 255 = 199" by code_simp
  note full = stream_reader_bounds [THEN conjunct2, THEN conjunct2, rule_format,
      of ?r "example_world [(?h2, True), ([0xAA, 0xBB], True)] [True] []" ?h2 "[0xAA, 0xBB]" "[]"
         "example_rpc [0, 0] 255" "[]" True 1000]
  note over = stream_reader_bounds [THEN conjunct2, THEN conjunct1, rule_format,
      of ?r "example_world [(?h3, True), ([0xAA, 0xBB, 0xCC], True)] [True] []" ?h3
         "[([0xAA, 0xBB, 0xCC], True)]" 3 "example_rpc [0, 0] 255" True 1000]
  from full h2 next255 have one: "stream_reader_round True 1000 ?r (example_rpc [0, 0] 255)
      (example_world [(?h2, True), ([0xAA, 0xBB], True)] [True] [])
    = Inr (True,
           \<lparr>reader_packet = ?h2, tx_lfsr = 199, acks_put = [255]\<rparr>,
           (example_rpc [0, 0] 255)\<lparr>buff := [0xAA, 0xBB]\<rparr>,
           \<lparr>rx = [], tx = [], clock = [], now = 0, produced = [],
            log = [Get 8, Get 2, Deliver [0xAA, 0xBB], Put [255]]\<rparr>)"
    by (simp add: example_rpc_def example_world_def)
  from over h3 have two: "stream_reader_round True 1000 ?r (example_rpc [0, 0] 255)
      (example_world [(?h3, True), ([0xAA, 0xBB, 0xCC], True)] [True] [])
    = Inr (False,
           \<lparr>reader_packet = ?h3, tx_lfsr = 255, acks_put = []\<rparr>,
           example_rpc [0, 0] 255,
           \<lparr>rx = [([0xAA, 0xBB, 0xCC], True)], tx = [True], clock = [], now = 0, produced = [],
            log = [Get 8]\<rparr>)"
    by (simp add: example_rpc_def example_world_def)
  have len: "length (buff (example_rpc [0, 0, 0, 0] 255)) = unat (buff_len (example_rpc [0, 0, 0, 0] 255))"
    by (simp add: example_rpc_def)
  from stream_reader_bounds [THEN conjunct1, rule_format, OF len, of 2 False 1 1000
      "example_world [([0x2e, 0x54, 2, 0, 0, 0, 0xe7, 0xca], True), ([0xAA, 0xBB], True),
                     ([0x2e, 0x54, 0, 0, 0, 0, 0x8f, 0x27], True), ([], True)]
        [True, True, True] []"] reader_run len
  have three: "length (buff (example_rpc [0, 0, 0, 0] 255)) = unat (buff_len (example_rpc [0, 0, 0, 0] 255))
   \<and> stream_reader 2 False 1 1000 (example_rpc [0, 0, 0, 0] 255)
     (example_world [([0x2e, 0x54, 2, 0, 0, 0, 0xe7, 0xca], True), ([0xAA, 0xBB], True),
                     ([0x2e, 0x54, 0, 0, 0, 0, 0x8f, 0x27], True), ([], True)]
        [True, True, True] [])
   = Inr (True,
       Some \<lparr>reader_packet = [0x2e, 0x54, 0, 0, 0, 0, 0x8f, 0x27], tx_lfsr = 219, acks_put = [255, 199]\<rparr>,
       (example_rpc [0, 0, 0, 0] 255)\<lparr>buff := [0xAA, 0xBB, 0, 0]\<rparr>,
       \<lparr>rx = [], tx = [], clock = [], now = 0, produced = [],
        log = [Put [0xf6, 0xed, 1, 0, 0, 0, 0x8f, 0x7e], Get 8, Get 2, Put [255], Get 8, Get 0, Put [199]]\<rparr>)
   \<and> length (buff ((example_rpc [0, 0, 0, 0] 255)\<lparr>buff := [0xAA, 0xBB, 0, 0]\<rparr>))
      = unat (buff_len (example_rpc [0, 0, 0, 0] 255))"
    by (simp add: example_rpc_def)
  from one two three show ?thesis by (simp only: simp_thms)
qed

subsection \<open>The handshake of the master: guards, copies and two exchanges\<close>

lemma put_command_too_long:
  "buff_len s < sz + 4 \<Longrightarrow> put_command fuel command data sz timeout s w = Inr (False, s, w)"
  by (simp add: put_command_def)

lemma put_result_too_long:
  "buff_len s < sz + 4 \<Longrightarrow> put_result fuel data sz timeout s w = Inr (False, s, w)"
  by (simp add: put_result_def)

lemma too_long_no_wrap:
  fixes len sz :: u32
  assumes "unat len < unat sz + 4" "unat sz + 4 < 2 ^ 32"
  shows "len < sz + 4"
proof -
  from assms(2) have "unat (sz + 4) = unat sz + 4" by (simp add: unat_word_ariths)
  with assms(1) show ?thesis by (simp add: word_less_nat_alt)
qed

lemma one_byte_too_long:
  fixes len :: u32
  assumes "len + 1 \<noteq> 0"
  shows "len < len - 3 + 4"
proof -
  have eq: "len - 3 + 4 = len + 1" by simp
  have bound: "unat len < 2 ^ 32" using unsigned_less [of len] by simp
  from assms have "unat (len + 1) \<noteq> 0" by (simp add: unat_eq_0)
  then have "(unat len + 1) mod 2 ^ 32 \<noteq> 0" by (simp add: unat_word_ariths)
  with bound have "unat len + 1 < 2 ^ 32"
    by (metis Suc_eq_plus1 Suc_lessI mod_self)
  then have "unat (len + 1) = unat len + 1" by (simp add: unat_word_ariths)
  then have "len < len + 1" by (simp add: word_less_nat_alt)
  with eq show ?thesis by (simp only:)
qed

lemma copy_result_failed:
  "unat result_data_len \<le> length result_data \<Longrightarrow>
   copy_result None result_data result_data_len flag
     = Inr (False, replicate (unat result_data_len) 0 @ drop (unat result_data_len) result_data)"
  by (simp add: copy_result_def memset_def)

lemma copy_result_cases:
  assumes "copy_result x result_data result_data_len flag = Inr (result, d)"
  shows "(flag \<and> (\<exists>p. x = Some (p, 0)) \<longrightarrow> \<not> result)
     \<and> (\<not> result \<longrightarrow>
          d = replicate (unat result_data_len) 0 @ drop (unat result_data_len) result_data)
     \<and> (result \<longrightarrow> (\<exists>p n. x = Some (p, n)
          \<and> d = take (unat (min result_data_len n)) p
                @ drop (unat (min result_data_len n)) result_data))"
  using assms
  by (auto simp: copy_result_def memset_def memcpy_def then_do_eq_Inr
      split: option.splits prod.splits if_splits)

lemma call_too_long:
  assumes "buff_len s + 1 \<noteq> 0" "hash_name cs name = Inr command"
    and "unat result_data_len \<le> length result_data"
  shows "call cs fuel name command_data (buff_len s - 3) result_data result_data_len flag
           send_timeout recv_timeout s w
     = Inr (False, replicate (unat result_data_len) 0 @ drop (unat result_data_len) result_data,
            s, w)"
  using assms one_byte_too_long [OF assms(1)]
  by (simp add: call_def call_no_copy_def put_command_too_long copy_result_failed)

lemma echo_hash: "hash_name False [0x65, 0x63, 0x68, 0x6f, 0] = Inr 0x7c6b6fa4"
  by code_simp

lemma echo_put_command:
  "put_command 1 0x7c6b6fa4 [0xDE, 0xAD, 0xBE, 0xEF] 4 100 example_master
     (example_world [([0x09, 0x12, 0xe4, 0x95], True), ([0xde, 0x8a, 0xe5, 0x1b], True),
                     ([0xeb, 0x6c, 0x04, 0x00, 0x00, 0x00, 0x8c, 0x1e], True),
                     ([0xa5, 0xf1, 0xde, 0xad, 0xbe, 0xef, 0x69, 0xfd], True)]
        [True, True, True, True] [0, 1, 2, 3])
   = Inr (True,
       example_master\<lparr>buff := [0xde, 0x8a, 0xde, 0xad, 0xbe, 0xef, 0x2e, 0x8a, 0, 0, 0, 0, 0, 0, 0, 0],
          in_command_header_buf := [0x09, 0x12, 0xe4, 0x95],
          in_command_data_buf := [0xde, 0x8a, 0xe5, 0x1b]\<rparr>,
       \<lparr>rx = [([0xeb, 0x6c, 0x04, 0x00, 0x00, 0x00, 0x8c, 0x1e], True),
              ([0xa5, 0xf1, 0xde, 0xad, 0xbe, 0xef, 0x69, 0xfd], True)],
        tx = [True, True], clock = [2, 3], now = 1, produced = [],
        log = [Flush, Put [0x09, 0x12, 0xa4, 0x6f, 0x6b, 0x7c, 0x04, 0x00, 0x00, 0x00, 0x3f, 0x21],
               Get 4, Put [0xde, 0x8a, 0xde, 0xad, 0xbe, 0xef, 0x2e, 0x8a], Get 4]\<rparr>)"
  by code_simp

lemma echo_get_result:
  "get_result 1 100 (example_master\<lparr>buff := [0xde, 0x8a, 0xde, 0xad, 0xbe, 0xef, 0x2e, 0x8a, 0, 0, 0, 0, 0, 0, 0, 0],
          in_command_header_buf := [0x09, 0x12, 0xe4, 0x95],
          in_command_data_buf := [0xde, 0x8a, 0xe5, 0x1b]\<rparr>)
       \<lparr>rx = [([0xeb, 0x6c, 0x04, 0x00, 0x00, 0x00, 0x8c, 0x1e], True),
              ([0xa5, 0xf1, 0xde, 0xad, 0xbe, 0xef, 0x69, 0xfd], True)],
        tx = [True, True], clock = [2, 3], now = 1, produced = [],
        log = [Flush, Put [0x09, 0x12, 0xa4, 0x6f, 0x6b, 0x7c, 0x04, 0x00, 0x00, 0x00, 0x3f, 0x21],
               Get 4, Put [0xde, 0x8a, 0xde, 0xad, 0xbe, 0xef, 0x2e, 0x8a], Get 4]\<rparr>
   = Inr (Some ([0xde, 0xad, 0xbe, 0xef, 0x69, 0xfd, 0, 0, 0, 0, 0, 0, 0, 0], 4),
       example_master\<lparr>buff := [0xa5, 0xf1, 0xde, 0xad, 0xbe, 0xef, 0x69, 0xfd, 0, 0, 0, 0, 0, 0, 0, 0],
          in_command_header_buf := [0x09, 0x12, 0xe4, 0x95],
          in_command_data_buf := [0xde, 0x8a, 0xe5, 0x1b],
          in_result_header_buf := [0xeb, 0x6c, 0x04, 0x00, 0x00, 0x00, 0x8c, 0x1e]\<rparr>,
       \<lparr>rx = [], tx = [], clock = [], now = 3, produced = [],
        log = [Flush, Put [0x09, 0x12, 0xa4, 0x6f, 0x6b, 0x7c, 0x04, 0x00, 0x00, 0x00, 0x3f, 0x21],
               Get 4, Put [0xde, 0x8a, 0xde, 0xad, 0xbe, 0xef, 0x2e, 0x8a], Get 4,
               Flush, Put [0xeb, 0x6c, 0x6d, 0x7c], Get 8, Put [0xa5, 0xf1, 0xba, 0x00], Get 8]\<rparr>)"
  by code_simp

lemma echo_call_no_copy:
  "call_no_copy False 1 [0x65, 0x63, 0x68, 0x6f, 0] [0xDE, 0xAD, 0xBE, 0xEF] 4 100 100
     example_master
     (example_world [([0x09, 0x12, 0xe4, 0x95], True), ([0xde, 0x8a, 0xe5, 0x1b], True),
                     ([0xeb, 0x6c, 0x04, 0x00, 0x00, 0x00, 0x8c, 0x1e], True),
                     ([0xa5, 0xf1, 0xde, 0xad, 0xbe, 0xef, 0x69, 0xfd], True)]
        [True, True, True, True] [0, 1, 2, 3])
   = Inr (Some ([0xde, 0xad, 0xbe, 0xef, 0x69, 0xfd, 0, 0, 0, 0, 0, 0, 0, 0], 4),
       example_master\<lparr>buff := [0xa5, 0xf1, 0xde, 0xad, 0xbe, 0xef, 0x69, 0xfd, 0, 0, 0, 0, 0, 0, 0, 0],
          in_command_header_buf := [0x09, 0x12, 0xe4, 0x95],
          in_command_data_buf := [0xde, 0x8a, 0xe5, 0x1b],
          in_result_header_buf := [0xeb, 0x6c, 0x04, 0x00, 0x00, 0x00, 0x8c, 0x1e]\<rparr>,
       \<lparr>rx = [], tx = [], clock = [], now = 3, produced = [],
        log = [Flush, Put [0x09, 0x12, 0xa4, 0x6f, 0x6b, 0x7c, 0x04, 0x00, 0x00, 0x00, 0x3f, 0x21],
               Get 4, Put [0xde, 0x8a, 0xde, 0xad, 0xbe, 0xef, 0x2e, 0x8a], Get 4,
               Flush, Put [0xeb, 0x6c, 0x6d, 0x7c], Get 8, Put [0xa5, 0xf1, 0xba, 0x00], Get 8]\<rparr>)"
  unfolding call_no_copy_def echo_hash then_do_Inr echo_put_command
  by (simp only: prod.case if_True echo_get_result)

lemma empty_put_command:
  "put_command 1 0x7c6b6fa4 [0xDE, 0xAD, 0xBE, 0xEF] 4 100 example_master
     (example_world [([0x09, 0x12, 0xe4, 0x95], True), ([0xde, 0x8a, 0xe5, 0x1b], True),
                     ([0xeb, 0x6c, 0x00, 0x00, 0x00, 0x00, 0x7d, 0xd4], True),
                     ([0xa5, 0xf1, 0xba, 0x00], True)]
        [True, True, True, True] [0, 1, 2, 3])
   = Inr (True,
       example_master\<lparr>buff := [0xde, 0x8a, 0xde, 0xad, 0xbe, 0xef, 0x2e, 0x8a, 0, 0, 0, 0, 0, 0, 0, 0],
          in_command_header_buf := [0x09, 0x12, 0xe4, 0x95],
          in_command_data_buf := [0xde, 0x8a, 0xe5, 0x1b]\<rparr>,
       \<lparr>rx = [([0xeb, 0x6c, 0x00, 0x00, 0x00, 0x00, 0x7d, 0xd4], True),
              ([0xa5, 0xf1, 0xba, 0x00], True)],
        tx = [True, True], clock = [2, 3], now = 1, produced = [],
        log = [Flush, Put [0x09, 0x12, 0xa4, 0x6f, 0x6b, 0x7c, 0x04, 0x00, 0x00, 0x00, 0x3f, 0x21],
               Get 4, Put [0xde, 0x8a, 0xde, 0xad, 0xbe, 0xef, 0x2e, 0x8a], Get 4]\<rparr>)"
  by code_simp

lemma empty_get_result:
  "get_result 1 100 (example_master\<lparr>buff := [0xde, 0x8a, 0xde, 0xad, 0xbe, 0xef, 0x2e, 0x8a, 0, 0, 0, 0, 0, 0, 0, 0],
          in_command_header_buf := [0x09, 0x12, 0xe4, 0x95],
          in_command_data_buf := [0xde, 0x8a, 0xe5, 0x1b]\<rparr>)
       \<lparr>rx = [([0xeb, 0x6c, 0x00, 0x00, 0x00, 0x00, 0x7d, 0xd4], True),
              ([0xa5, 0xf1, 0xba, 0x00], True)],
        tx = [True, True], clock = [2, 3], now = 1, produced = [],
        log = [Flush, Put [0x09, 0x12, 0xa4, 0x6f, 0x6b, 0x7c, 0x04, 0x00, 0x00, 0x00, 0x3f, 0x21],
               Get 4, Put [0xde, 0x8a, 0xde, 0xad, 0xbe, 0xef, 0x2e, 0x8a], Get 4]\<rparr>
   = Inr (Some ([0xba, 0x00, 0xbe, 0xef, 0x2e, 0x8a, 0, 0, 0, 0, 0, 0, 0, 0], 0),
       example_master\<lparr>buff := [0xa5, 0xf1, 0xba, 0x00, 0xbe, 0xef, 0x2e, 0x8a, 0, 0, 0, 0, 0, 0, 0, 0],
          in_command_header_buf := [0x09, 0x12, 0xe4, 0x95],
          in_command_data_buf := [0xde, 0x8a, 0xe5, 0x1b],
          in_result_header_buf := [0xeb, 0x6c, 0x00, 0x00, 0x00, 0x00, 0x7d, 0xd4]\<rparr>,
       \<lparr>rx = [], tx = [], clock = [], now = 3, produced = [],
        log = [Flush, Put [0x09, 0x12, 0xa4, 0x6f, 0x6b, 0x7c, 0x04, 0x00, 0x00, 0x00, 0x3f, 0x21],
               Get 4, Put [0xde, 0x8a, 0xde, 0xad, 0xbe, 0xef, 0x2e, 0x8a], Get 4,
               Flush, Put [0xeb, 0x6c, 0x6d, 0x7c], Get 8, Put [0xa5, 0xf1, 0xba, 0x00], Get 4]\<rparr>)"
  by code_simp

lemma empty_call_no_copy:
  "call_no_copy False 1 [0x65, 0x63, 0x68, 0x6f, 0] [0xDE, 0xAD, 0xBE, 0xEF] 4 100 100
     example_master
     (example_world [([0x09, 0x12, 0xe4, 0x95], True), ([0xde, 0x8a, 0xe5, 0x1b], True),
                     ([0xeb, 0x6c, 0x00, 0x00, 0x00, 0x00, 0x7d, 0xd4], True),
                     ([0xa5, 0xf1, 0xba, 0x00], True)]
        [True, True, True, True] [0, 1, 2, 3])
   = Inr (Some ([0xba, 0x00, 0xbe, 0xef, 0x2e, 0x8a, 0, 0, 0, 0, 0, 0, 0, 0], 0),
       example_master\<lparr>buff := [0xa5, 0xf1, 0xba, 0x00, 0xbe, 0xef, 0x2e, 0x8a, 0, 0, 0, 0, 0, 0, 0, 0],
          in_command_header_buf := [0x09, 0x12, 0xe4, 0x95],
          in_command_data_buf := [0xde, 0x8a, 0xe5, 0x1b],
          in_result_header_buf := [0xeb, 0x6c, 0x00, 0x00, 0x00, 0x00, 0x7d, 0xd4]\<rparr>,
       \<lparr>rx = [], tx = [], clock = [], now = 3, produced = [],
        log = [Flush, Put [0x09, 0x12, 0xa4, 0x6f, 0x6b, 0x7c, 0x04, 0x00, 0x00, 0x00, 0x3f, 0x21],
               Get 4, Put [0xde, 0x8a, 0xde, 0xad, 0xbe, 0xef, 0x2e, 0x8a], Get 4,
               Flush, Put [0xeb, 0x6c, 0x6d, 0x7c], Get 8, Put [0xa5, 0xf1, 0xba, 0x00], Get 4]\<rparr>)"
  unfolding call_no_copy_def echo_hash then_do_Inr empty_put_command
  by (simp only: prod.case if_True empty_get_result)


lemma echo_copy:
  "copy_result (Some ([0xde, 0xad, 0xbe, 0xef, 0x69, 0xfd, 0, 0, 0, 0, 0, 0, 0, 0], 4))
     [1, 1, 1, 1, 1, 1] 6 True = Inr (True, [0xDE, 0xAD, 0xBE, 0xEF, 1, 1])"
  by code_simp

lemma empty_copy:
  "copy_result (Some ([0xba, 0x00, 0xbe, 0xef, 0x2e, 0x8a, 0, 0, 0, 0, 0, 0, 0, 0], 0))
     [1, 1, 1, 1, 1, 1] 6 True = Inr (False, [0, 0, 0, 0, 0, 0])"
  by code_simp

lemma echo_call:
  "call False 1 [0x65, 0x63, 0x68, 0x6f, 0] [0xDE, 0xAD, 0xBE, 0xEF] 4 [1, 1, 1, 1, 1, 1] 6 True
      100 100 example_master
     (example_world [([0x09, 0x12, 0xe4, 0x95], True), ([0xde, 0x8a, 0xe5, 0x1b], True),
                     ([0xeb, 0x6c, 0x04, 0x00, 0x00, 0x00, 0x8c, 0x1e], True),
                     ([0xa5, 0xf1, 0xde, 0xad, 0xbe, 0xef, 0x69, 0xfd], True)]
        [True, True, True, True] [0, 1, 2, 3])
   = Inr (True, [0xDE, 0xAD, 0xBE, 0xEF, 1, 1],
       example_master\<lparr>buff := [0xa5, 0xf1, 0xde, 0xad, 0xbe, 0xef, 0x69, 0xfd, 0, 0, 0, 0, 0, 0, 0, 0],
          in_command_header_buf := [0x09, 0x12, 0xe4, 0x95],
          in_command_data_buf := [0xde, 0x8a, 0xe5, 0x1b],
          in_result_header_buf := [0xeb, 0x6c, 0x04, 0x00, 0x00, 0x00, 0x8c, 0x1e]\<rparr>,
       \<lparr>rx = [], tx = [], clock = [], now = 3, produced = [],
        log = [Flush, Put [0x09, 0x12, 0xa4, 0x6f, 0x6b, 0x7c, 0x04, 0x00, 0x00, 0x00, 0x3f, 0x21],
               Get 4, Put [0xde, 0x8a, 0xde, 0xad, 0xbe, 0xef, 0x2e, 0x8a], Get 4,
               Flush, Put [0xeb, 0x6c, 0x6d, 0x7c], Get 8, Put [0xa5, 0xf1, 0xba, 0x00], Get 8]\<rparr>)"
  unfolding call_def echo_call_no_copy then_do_Inr
  by (simp only: prod.case echo_copy then_do_Inr)

lemma empty_call:
  "call False 1 [0x65, 0x63, 0x68, 0x6f, 0] [0xDE, 0xAD, 0xBE, 0xEF] 4 [1, 1, 1, 1, 1, 1] 6 True
      100 100 example_master
     (example_world [([0x09, 0x12, 0xe4, 0x95], True), ([0xde, 0x8a, 0xe5, 0x1b], True),
                     ([0xeb, 0x6c, 0x00, 0x00, 0x00, 0x00, 0x7d, 0xd4], True),
                     ([0xa5, 0xf1, 0xba, 0x00], True)]
        [True, True, True, True] [0, 1, 2, 3])
   = Inr (False, [0, 0, 0, 0, 0, 0],
       example_master\<lparr>buff := [0xa5, 0xf1, 0xba, 0x00, 0xbe, 0xef, 0x2e, 0x8a, 0, 0, 0, 0, 0, 0, 0, 0],
          in_command_header_buf := [0x09, 0x12, 0xe4, 0x95],
          in_command_data_buf := [0xde, 0x8a, 0xe5, 0x1b],
          in_result_header_buf := [0xeb, 0x6c, 0x00, 0x00, 0x00, 0x00, 0x7d, 0xd4]\<rparr>,
       \<lparr>rx = [], tx = [], clock = [], now = 3, produced = [],
        log = [Flush, Put [0x09, 0x12, 0xa4, 0x6f, 0x6b, 0x7c, 0x04, 0x00, 0x00, 0x00, 0x3f, 0x21],
               Get 4, Put [0xde, 0x8a, 0xde, 0xad, 0xbe, 0xef, 0x2e, 0x8a], Get 4,
               Flush, Put [0xeb, 0x6c, 0x6d, 0x7c], Get 8, Put [0xa5, 0xf1, 0xba, 0x00], Get 4]\<rparr>)"
  unfolding call_def empty_call_no_copy then_do_Inr
  by (simp only: prod.case empty_copy then_do_Inr)

lemma example_master_init: "rpc_master_init (replicate 16 0) 16 5000 = Inr example_master"
  by code_simp

lemma noargs_put_command:
  "put_command 1 0x7c6b6fa4 [] 0 100 example_master
     (example_world [([0x09, 0x12, 0xe4, 0x95], True), ([0xde, 0x8a, 0xe5, 0x1b], True),
                     ([0xeb, 0x6c, 0x04, 0x00, 0x00, 0x00, 0x8c, 0x1e], True),
                     ([0xa5, 0xf1, 0xde, 0xad, 0xbe, 0xef, 0x69, 0xfd], True)]
        [True, True, True, True] [0, 1, 2, 3])
   = Inr (True,
       example_master\<lparr>buff := [0xde, 0x8a, 0xe5, 0x1b, 0, 0, 0, 0, 0, 0, 0, 0, 0, 0, 0, 0],
          in_command_header_buf := [0x09, 0x12, 0xe4, 0x95],
          in_command_data_buf := [0xde, 0x8a, 0xe5, 0x1b]\<rparr>,
       \<lparr>rx = [([0xeb, 0x6c, 0x04, 0x00, 0x00, 0x00, 0x8c, 0x1e], True),
              ([0xa5, 0xf1, 0xde, 0xad, 0xbe, 0xef, 0x69, 0xfd], True)],
        tx = [True, True], clock = [2, 3], now = 1, produced = [],
        log = [Flush, Put [0x09, 0x12, 0xa4, 0x6f, 0x6b, 0x7c, 0x00, 0x00, 0x00, 0x00, 0xce, 0xeb],
               Get 4, Put [0xde, 0x8a, 0xe5, 0x1b], Get 4]\<rparr>)"
  by code_simp

lemma noargs_get_result:
  "get_result 1 100 (example_master\<lparr>buff := [0xde, 0x8a, 0xe5, 0x1b, 0, 0, 0, 0, 0, 0, 0, 0, 0, 0, 0, 0],
          in_command_header_buf := [0x09, 0x12, 0xe4, 0x95],
          in_command_data_buf := [0xde, 0x8a, 0xe5, 0x1b]\<rparr>)
       \<lparr>rx = [([0xeb, 0x6c, 0x04, 0x00, 0x00, 0x00, 0x8c, 0x1e], True),
              ([0xa5, 0xf1, 0xde, 0xad, 0xbe, 0xef, 0x69, 0xfd], True)],
        tx = [True, True], clock = [2, 3], now = 1, produced = [],
        log = [Flush, Put [0x09, 0x12, 0xa4, 0x6f, 0x6b, 0x7c, 0x00, 0x00, 0x00, 0x00, 0xce, 0xeb],
               Get 4, Put [0xde, 0x8a, 0xe5, 0x1b], Get 4]\<rparr>
   = Inr (Some ([0xde, 0xad, 0xbe, 0xef, 0x69, 0xfd, 0, 0, 0, 0, 0, 0, 0, 0], 4),
       example_master\<lparr>buff := [0xa5, 0xf1, 0xde, 0xad, 0xbe, 0xef, 0x69, 0xfd, 0, 0, 0, 0, 0, 0, 0, 0],
          in_command_header_buf := [0x09, 0x12, 0xe4, 0x95],
          in_command_data_buf := [0xde, 0x8a, 0xe5, 0x1b],
          in_result_header_buf := [0xeb, 0x6c, 0x04, 0x00, 0x00, 0x00, 0x8c, 0x1e]\<rparr>,
       \<lparr>rx = [], tx = [], clock = [], now = 3, produced = [],
        log = [Flush, Put [0x09, 0x12, 0xa4, 0x6f, 0x6b, 0x7c, 0x00, 0x00, 0x00, 0x00, 0xce, 0xeb],
               Get 4, Put [0xde, 0x8a, 0xe5, 0x1b], Get 4,
               Flush, Put [0xeb, 0x6c, 0x6d, 0x7c], Get 8, Put [0xa5, 0xf1, 0xba, 0x00], Get 8]\<rparr>)"
  by code_simp

lemma noargs_call_no_copy:
  "call_no_copy False 1 [0x65, 0x63, 0x68, 0x6f, 0] [] 0 100 100
     example_master
     (example_world [([0x09, 0x12, 0xe4, 0x95], True), ([0xde, 0x8a, 0xe5, 0x1b], True),
                     ([0xeb, 0x6c, 0x04, 0x00, 0x00, 0x00, 0x8c, 0x1e], True),
                     ([0xa5, 0xf1, 0xde, 0xad, 0xbe, 0xef, 0x69, 0xfd], True)]
        [True, True, True, True] [0, 1, 2, 3])
   = Inr (Some ([0xde, 0xad, 0xbe, 0xef, 0x69, 0xfd, 0, 0, 0, 0, 0, 0, 0, 0], 4),
       example_master\<lparr>buff := [0xa5, 0xf1, 0xde, 0xad, 0xbe, 0xef, 0x69, 0xfd, 0, 0, 0, 0, 0, 0, 0, 0],
          in_command_header_buf := [0x09, 0x12, 0xe4, 0x95],
          in_command_data_buf := [0xde, 0x8a, 0xe5, 0x1b],
          in_result_header_buf := [0xeb, 0x6c, 0x04, 0x00, 0x00, 0x00, 0x8c, 0x1e]\<rparr>,
       \<lparr>rx = [], tx = [], clock = [], now = 3, produced = [],
        log = [Flush, Put [0x09, 0x12, 0xa4, 0x6f, 0x6b, 0x7c, 0x00, 0x00, 0x00, 0x00, 0xce, 0xeb],
               Get 4, Put [0xde, 0x8a, 0xe5, 0x1b], Get 4,
               Flush, Put [0xeb, 0x6c, 0x6d, 0x7c], Get 8, Put [0xa5, 0xf1, 0xba, 0x00], Get 8]\<rparr>)"
  unfolding call_no_copy_def echo_hash then_do_Inr noargs_put_command
  by (simp only: prod.case if_True noargs_get_result)

lemma noargs_copy:
  "copy_result (Some ([0xde, 0xad, 0xbe, 0xef, 0x69, 0xfd, 0, 0, 0, 0, 0, 0, 0, 0], 4))
     [1, 1] 2 True = Inr (True, [0xDE, 0xAD])"
  by code_simp

lemma noargs_call:
  "call_no_args False 1 [0x65, 0x63, 0x68, 0x6f, 0] [1, 1] 2 True 100 100 example_master
     (example_world [([0x09, 0x12, 0xe4, 0x95], True), ([0xde, 0x8a, 0xe5, 0x1b], True),
                     ([0xeb, 0x6c, 0x04, 0x00, 0x00, 0x00, 0x8c, 0x1e], True),
                     ([0xa5, 0xf1, 0xde, 0xad, 0xbe, 0xef, 0x69, 0xfd], True)]
        [True, True, True, True] [0, 1, 2, 3])
   = Inr (True, [0xDE, 0xAD],
       example_master\<lparr>buff := [0xa5, 0xf1, 0xde, 0xad, 0xbe, 0xef, 0x69, 0xfd, 0, 0, 0, 0, 0, 0, 0, 0],
          in_command_header_buf := [0x09, 0x12, 0xe4, 0x95],
          in_command_data_buf := [0xde, 0x8a, 0xe5, 0x1b],
          in_result_header_buf := [0xeb, 0x6c, 0x04, 0x00, 0x00, 0x00, 0x8c, 0x1e]\<rparr>,
       \<lparr>rx = [], tx = [], clock = [], now = 3, produced = [],
        log = [Flush, Put [0x09, 0x12, 0xa4, 0x6f, 0x6b, 0x7c, 0x00, 0x00, 0x00, 0x00, 0xce, 0xeb],
               Get 4, Put [0xde, 0x8a, 0xe5, 0x1b], Get 4,
               Flush, Put [0xeb, 0x6c, 0x6d, 0x7c], Get 8, Put [0xa5, 0xf1, 0xba, 0x00], Get 8]\<rparr>)"
  unfolding call_no_args_def noargs_call_no_copy then_do_Inr
  by (simp only: prod.case noargs_copy then_do_Inr)

subsection \<open>C6: requests and responses that do not fit fail at once\<close>

text \<open>
  C6. \<open>__put_command\<close> with a size such that \<open>_buff_len < size + 4\<close> returns false before any
  transport I/O: the object and the world are as they were, so nothing was flushed, put
  or got and the clock was not read; \<open>__put_result\<close> of the slave does the same. The
  comparison is the one of the code, in \<open>size_t\<close> arithmetic; it holds for every length that
  exceeds \<open>_buff_len - 4\<close> and for which \<open>size + 4\<close> does not wrap around. In particular \<open>call\<close>
  with a request of length \<open>_buff_len - 3\<close> returns false with the result buffer zeroed and
  without transport I/O, for every buffer length but the largest value of \<open>size_t\<close>.
\<close>

theorem oversize_fails_fast:
  "(buff_len s < sz + 4 \<longrightarrow> put_command fuel command data sz timeout s w = Inr (False, s, w))
   \<and> (unat (buff_len s) < unat sz + 4 \<and> unat sz + 4 < 2 ^ 32 \<longrightarrow>
        put_command fuel command data sz timeout s w = Inr (False, s, w))
   \<and> (buff_len t < sz + 4 \<longrightarrow> put_result fuel data sz timeout t v = Inr (False, t, v))
   \<and> (unat (buff_len t) < unat sz + 4 \<and> unat sz + 4 < 2 ^ 32 \<longrightarrow>
        put_result fuel data sz timeout t v = Inr (False, t, v))
   \<and> (buff_len s + 1 \<noteq> 0 \<and> hash_name cs name = Inr command
        \<and> unat result_data_len \<le> length result_data \<longrightarrow>
        call cs fuel name data (buff_len s - 3) result_data result_data_len flag
          send_timeout recv_timeout s w
        = Inr (False,
               replicate (unat result_data_len) 0 @ drop (unat result_data_len) result_data,
               s, w))"
  using put_command_too_long [of s sz fuel command data timeout w]
    put_result_too_long [of t sz fuel data timeout v]
    too_long_no_wrap [of "buff_len s" sz] too_long_no_wrap [of "buff_len t" sz]
    call_too_long [of s cs name command result_data_len result_data fuel data flag
                      send_timeout recv_timeout w]
  by blast

theorem oversize_fails_fast_witness:
  "buff_len example_master < 13 + 4
   \<and> unat (buff_len example_master) < unat (13 :: u32) + 4 \<and> unat (13 :: u32) + 4 < (2 :: nat) ^ 32
   \<and> put_command 1 0x7c6b6fa4 (replicate 13 7) 13 100 example_master
        (example_world [([0x09, 0x12, 0xe4, 0x95], True)] [True] [0, 1])
      = Inr (False, example_master, example_world [([0x09, 0x12, 0xe4, 0x95], True)] [True] [0, 1])
   \<and> put_result 1 (replicate 13 7) 13 100 example_slave
        (example_world [([0xeb, 0x6c, 0x6d, 0x7c], True)] [True] [0, 1])
      = Inr (False, example_slave, example_world [([0xeb, 0x6c, 0x6d, 0x7c], True)] [True] [0, 1])
   \<and> call False 1 [0x65, 0x63, 0x68, 0x6f, 0] (replicate 13 7) 13 [1, 1, 1, 1] 4 False 100 100
        example_master (example_world [([0x09, 0x12, 0xe4, 0x95], True)] [True] [0, 1])
      = Inr (False, replicate 4 0, example_master,
             example_world [([0x09, 0x12, 0xe4, 0x95], True)] [True] [0, 1])"
proof -
  have m: "buff_len example_master < 13 + 4" "buff_len example_master + 1 \<noteq> 0"
    "buff_len example_master - 3 = 13"
    by (simp_all add: example_master_def)
  have mn: "unat (buff_len example_master) < unat (13 :: u32) + 4 \<and> unat (13 :: u32) + 4 < (2 :: nat) ^ 32"
    by (simp add: example_master_def)
  have sl: "buff_len example_slave < 13 + 4" by (simp add: example_slave_def)
  have sn: "unat (buff_len example_slave) < unat (13 :: u32) + 4 \<and> unat (13 :: u32) + 4 < (2 :: nat) ^ 32"
    by (simp add: example_slave_def)
  note a = oversize_fails_fast [THEN conjunct1, rule_format, OF m(1)]
  note a' = oversize_fails_fast [THEN conjunct2, THEN conjunct1, rule_format, OF mn]
  note b = oversize_fails_fast [THEN conjunct2, THEN conjunct2, THEN conjunct1, rule_format, OF sl]
  note b' = oversize_fails_fast [THEN conjunct2, THEN conjunct2, THEN conjunct2, THEN conjunct1,
      rule_format, OF sn]
  note c = oversize_fails_fast [THEN conjunct2, THEN conjunct2, THEN conjunct2, THEN conjunct2,
      rule_format, OF conjI, OF m(2) conjI, OF echo_hash,
      of 4 "[1, 1, 1, 1]" 1 "replicate 13 7" False 100 100
         "example_world [([0x09, 0x12, 0xe4, 0x95], True)] [True] [0, 1]"]
  from m mn a a' b b' c show ?thesis by simp
qed

subsection \<open>C7: the result buffer of the copying calls\<close>

text \<open>
  C7. Whenever \<open>call\<close> or \<open>call_no_args\<close> returns, the exchange
  \<open>__put_command(...) ? __get_result(...) : false\<close> has returned, and: if the flag
  \<open>return_false_if_received_data_is_zero\<close> is set and the exchange succeeded with a result of
  length zero, the call returns false; if the call returns false, all \<open>result_data_len\<close> bytes
  of \<open>result_data\<close> are zero (and nothing beyond them is changed); if it returns true, the
  first \<open>min(result_data_len, result_size)\<close> bytes of \<open>result_data\<close> are those of the result
  and the rest is unchanged.
\<close>

theorem call_result_buffer:
  "(call cs fuel name command_data command_data_len result_data result_data_len flag
        send_timeout recv_timeout s w = Inr (result, d, s1, w1) \<longrightarrow>
      (\<exists>x. call_no_copy cs fuel name command_data command_data_len send_timeout recv_timeout s w
              = Inr (x, s1, w1)
         \<and> (flag \<and> (\<exists>p. x = Some (p, 0)) \<longrightarrow> \<not> result)
         \<and> (\<not> result \<longrightarrow>
              d = replicate (unat result_data_len) 0 @ drop (unat result_data_len) result_data)
         \<and> (result \<longrightarrow> (\<exists>p n. x = Some (p, n)
              \<and> d = take (unat (min result_data_len n)) p
                    @ drop (unat (min result_data_len n)) result_data))))
   \<and> (call_no_args cs fuel name result_data result_data_len flag
        send_timeout recv_timeout s w = Inr (result', d', s2, w2) \<longrightarrow>
      (\<exists>x. call_no_copy cs fuel name [] 0 send_timeout recv_timeout s w = Inr (x, s2, w2)
         \<and> (flag \<and> (\<exists>p. x = Some (p, 0)) \<longrightarrow> \<not> result')
         \<and> (\<not> result' \<longrightarrow>
              d' = replicate (unat result_data_len) 0 @ drop (unat result_data_len) result_data)
         \<and> (result' \<longrightarrow> (\<exists>p n. x = Some (p, n)
              \<and> d' = take (unat (min result_data_len n)) p
                     @ drop (unat (min result_data_len n)) result_data))))"
proof (intro conjI impI)
  assume "call cs fuel name command_data command_data_len result_data result_data_len flag
        send_timeout recv_timeout s w = Inr (result, d, s1, w1)"
  then obtain x where
    x: "call_no_copy cs fuel name command_data command_data_len send_timeout recv_timeout s w
          = Inr (x, s1, w1)"
    and c: "copy_result x result_data result_data_len flag = Inr (result, d)"
    by (auto simp: call_def then_do_eq_Inr split: prod.splits)
  from x copy_result_cases [OF c]
  show "\<exists>x. call_no_copy cs fuel name command_data command_data_len send_timeout recv_timeout s w
              = Inr (x, s1, w1)
         \<and> (flag \<and> (\<exists>p. x = Some (p, 0)) \<longrightarrow> \<not> result)
         \<and> (\<not> result \<longrightarrow>
              d = replicate (unat result_data_len) 0 @ drop (unat result_data_len) result_data)
         \<and> (result \<longrightarrow> (\<exists>p n. x = Some (p, n)
              \<and> d = take (unat (min result_data_len n)) p
                    @ drop (unat (min result_data_len n)) result_data))"
    by blast
next
  assume "call_no_args cs fuel name result_data result_data_len flag
        send_timeout recv_timeout s w = Inr (result', d', s2, w2)"
  then obtain x where
    x: "call_no_copy cs fuel name [] 0 send_timeout recv_timeout s w = Inr (x, s2, w2)"
    and c: "copy_result x result_data result_data_len flag = Inr (result', d')"
    by (auto simp: call_no_args_def then_do_eq_Inr split: prod.splits)
  from x copy_result_cases [OF c]
  show "\<exists>x. call_no_copy cs fuel name [] 0 send_timeout recv_timeout s w = Inr (x, s2, w2)
         \<and> (flag \<and> (\<exists>p. x = Some (p, 0)) \<longrightarrow> \<not> result')
         \<and> (\<not> result' \<longrightarrow>
              d' = replicate (unat result_data_len) 0 @ drop (unat result_data_len) result_data)
         \<and> (result' \<longrightarrow> (\<exists>p n. x = Some (p, n)
              \<and> d' = take (unat (min result_data_len n)) p
                     @ drop (unat (min result_data_len n)) result_data))"
    by blast
qed

theorem call_result_buffer_witness:
  "call False 1 [0x65, 0x63, 0x68, 0x6f, 0] [0xDE, 0xAD, 0xBE, 0xEF] 4 [1, 1, 1, 1, 1, 1] 6 True
      100 100 example_master
     (example_world [([0x09, 0x12, 0xe4, 0x95], True), ([0xde, 0x8a, 0xe5, 0x1b], True),
                     ([0xeb, 0x6c, 0x04, 0x00, 0x00, 0x00, 0x8c, 0x1e], True),
                     ([0xa5, 0xf1, 0xde, 0xad, 0xbe, 0xef, 0x69, 0xfd], True)]
        [True, True, True, True] [0, 1, 2, 3])
   = Inr (True, [0xDE, 0xAD, 0xBE, 0xEF, 1, 1],
       example_master\<lparr>buff := [0xa5, 0xf1, 0xde, 0xad, 0xbe, 0xef, 0x69, 0xfd, 0, 0, 0, 0, 0, 0, 0, 0],
          in_command_header_buf := [0x09, 0x12, 0xe4, 0x95],
          in_command_data_buf := [0xde, 0x8a, 0xe5, 0x1b],
          in_result_header_buf := [0xeb, 0x6c, 0x04, 0x00, 0x00, 0x00, 0x8c, 0x1e]\<rparr>,
       \<lparr>rx = [], tx = [], clock = [], now = 3, produced = [],
        log = [Flush, Put [0x09, 0x12, 0xa4, 0x6f, 0x6b, 0x7c, 0x04, 0x00, 0x00, 0x00, 0x3f, 0x21],
               Get 4, Put [0xde, 0x8a, 0xde, 0xad, 0xbe, 0xef, 0x2e, 0x8a], Get 4,
               Flush, Put [0xeb, 0x6c, 0x6d, 0x7c], Get 8, Put [0xa5, 0xf1, 0xba, 0x00], Get 8]\<rparr>)
   \<and> [0xDE, 0xAD, 0xBE, 0xEF, 1, 1]
       = take (unat (min 6 4 :: u32)) [0xde, 0xad, 0xbe, 0xef, 0x69, 0xfd, 0, 0, 0, 0, 0, 0, 0, 0 :: u8]
         @ drop (unat (min 6 4 :: u32)) [1, 1, 1, 1, 1, 1]
   \<and> call False 1 [0x65, 0x63, 0x68, 0x6f, 0] [0xDE, 0xAD, 0xBE, 0xEF] 4 [1, 1, 1, 1, 1, 1] 6 True
      100 100 example_master
     (example_world [([0x09, 0x12, 0xe4, 0x95], True), ([0xde, 0x8a, 0xe5, 0x1b], True),
                     ([0xeb, 0x6c, 0x00, 0x00, 0x00, 0x00, 0x7d, 0xd4], True),
                     ([0xa5, 0xf1, 0xba, 0x00], True)]
        [True, True, True, True] [0, 1, 2, 3])
   = Inr (False, [0, 0, 0, 0, 0, 0],
       example_master\<lparr>buff := [0xa5, 0xf1, 0xba, 0x00, 0xbe, 0xef, 0x2e, 0x8a, 0, 0, 0, 0, 0, 0, 0, 0],
          in_command_header_buf := [0x09, 0x12, 0xe4, 0x95],
          in_command_data_buf := [0xde, 0x8a, 0xe5, 0x1b],
          in_result_header_buf := [0xeb, 0x6c, 0x00, 0x00, 0x00, 0x00, 0x7d, 0xd4]\<rparr>,
       \<lparr>rx = [], tx = [], clock = [], now = 3, produced = [],
        log = [Flush, Put [0x09, 0x12, 0xa4, 0x6f, 0x6b, 0x7c, 0x04, 0x00, 0x00, 0x00, 0x3f, 0x21],
               Get 4, Put [0xde, 0x8a, 0xde, 0xad, 0xbe, 0xef, 0x2e, 0x8a], Get 4,
               Flush, Put [0xeb, 0x6c, 0x6d, 0x7c], Get 8, Put [0xa5, 0xf1, 0xba, 0x00], Get 4]\<rparr>)
   \<and> [0, 0, 0, 0, 0, 0] = replicate (unat (6 :: u32)) (0 :: u8) @ drop (unat (6 :: u32)) [1, 1, 1, 1, 1, 1]
   \<and> call_no_args False 1 [0x65, 0x63, 0x68, 0x6f, 0] [1, 1] 2 True 100 100 example_master
     (example_world [([0x09, 0x12, 0xe4, 0x95], True), ([0xde, 0x8a, 0xe5, 0x1b], True),
                     ([0xeb, 0x6c, 0x04, 0x00, 0x00, 0x00, 0x8c, 0x1e], True),
                     ([0xa5, 0xf1, 0xde, 0xad, 0xbe, 0xef, 0x69, 0xfd], True)]
        [True, True, True, True] [0, 1, 2, 3])
   = Inr (True, [0xDE, 0xAD],
       example_master\<lparr>buff := [0xa5, 0xf1, 0xde, 0xad, 0xbe, 0xef, 0x69, 0xfd, 0, 0, 0, 0, 0, 0, 0, 0],
          in_command_header_buf := [0x09, 0x12, 0xe4, 0x95],
          in_command_data_buf := [0xde, 0x8a, 0xe5, 0x1b],
          in_result_header_buf := [0xeb, 0x6c, 0x04, 0x00, 0x00, 0x00, 0x8c, 0x1e]\<rparr>,
       \<lparr>rx = [], tx = [], clock = [], now = 3, produced = [],
        log = [Flush, Put [0x09, 0x12, 0xa4, 0x6f, 0x6b, 0x7c, 0x00, 0x00, 0x00, 0x00, 0xce, 0xeb],
               Get 4, Put [0xde, 0x8a, 0xe5, 0x1b], Get 4,
               Flush, Put [0xeb, 0x6c, 0x6d, 0x7c], Get 8, Put [0xa5, 0xf1, 0xba, 0x00], Get 8]\<rparr>)
   \<and> [0xDE, 0xAD]
       = take (unat (min 2 4 :: u32)) [0xde, 0xad, 0xbe, 0xef, 0x69, 0xfd, 0, 0, 0, 0, 0, 0, 0, 0 :: u8]
         @ drop (unat (min 2 4 :: u32)) [1, 1]"
proof -
  from call_result_buffer [THEN conjunct1, rule_format, OF echo_call] echo_call_no_copy
  have one: "[0xDE, 0xAD, 0xBE, 0xEF, 1, 1]
       = take (unat (min 6 4 :: u32)) [0xde, 0xad, 0xbe, 0xef, 0x69, 0xfd, 0, 0, 0, 0, 0, 0, 0, 0 :: u8]
         @ drop (unat (min 6 4 :: u32)) [1, 1, 1, 1, 1, 1]"
    by auto
  from call_result_buffer [THEN conjunct1, rule_format, OF empty_call]
  have two: "[0, 0, 0, 0, 0, 0]
       = replicate (unat (6 :: u32)) (0 :: u8) @ drop (unat (6 :: u32)) [1, 1, 1, 1, 1, 1]"
    by auto
  from call_result_buffer [THEN conjunct2, rule_format, OF noargs_call] noargs_call_no_copy
  have three: "[0xDE, 0xAD]
       = take (unat (min 2 4 :: u32)) [0xde, 0xad, 0xbe, 0xef, 0x69, 0xfd, 0, 0, 0, 0, 0, 0, 0, 0 :: u8]
         @ drop (unat (min 2 4 :: u32)) [1, 1]"
    by auto
  from echo_call empty_call noargs_call one two three show ?thesis by (simp only: simp_thms)
qed

subsection \<open>C2: which frames are accepted\<close>

lemma get_packet_accepts_both:
  assumes "get_packet magic_value b sz t w = Inr (True, b', w')"
  shows "packet_magic b' = magic_value \<and> packet_crc b' (unat sz) = crc_16 (take (unat sz - 2) b')"
  using assms
  by (auto simp: get_packet_def check_packet_def then_do_eq_Inr split: if_splits prod.splits)

lemma stream_writer_setup_accepts_either:
  assumes "rx w = (p, True) # rest" "length p = 8"
    and "packet_magic p = 0xEDF6 \<or> packet_crc p 8 = crc_16 (take 6 p)"
  shows "\<exists>wr w'. stream_writer_setup s w = Inr (Some wr, w')"
  using assms
  by (auto simp: stream_writer_setup_def get_bytes_def unpack_unsigned_long_def Let_def)

text \<open>
  C2 holds for \<open>_get_packet\<close>, which accepts a frame only when both the magic and the CRC
  match (\<open>get_packet_accepts_both\<close>), and fails for the two stream functions, which return
  only when both checks fail. \<open>stream_writer\<close> goes on to its loop after a setup frame with
  the magic \<open>0x1234\<close> and a matching CRC, and after one with the magic \<open>0xEDF6\<close> and a CRC that
  does not match (the bytes 0, 0 where the CRC of the frame is \<open>0x8DF8\<close>); \<open>stream_reader\<close>
  takes a data header with the magic \<open>0x0000\<close> and a matching CRC, reads the payload and
  acknowledges it. \<open>_get_packet\<close> rejects the first of these frames.
\<close>

theorem stream_setup_accepts_wrong_magic:
  "stream_writer_setup (example_rpc [] 255)
     (example_world [([0x34, 0x12, 1, 0, 0, 0, 0x50, 0x11], True)] [] [])
   = Inr (Some \<lparr>writer_packet = [0x34, 0x12, 1, 0, 0, 0, 0x50, 0x11], queue_depth = 1, rx_lfsr = 255,
                credits = 1, frames_put = 0, acks_taken = []\<rparr>,
          \<lparr>rx = [], tx = [], clock = [], now = 0, produced = [], log = [Get 8]\<rparr>)
   \<and> packet_magic [0x34, 0x12, 1, 0, 0, 0, 0x50, 0x11] = 0x1234
   \<and> stream_writer_setup (example_rpc [] 255)
     (example_world [([0xf6, 0xed, 8, 0, 0, 0, 0, 0], True)] [] [])
   = Inr (Some \<lparr>writer_packet = [0xf6, 0xed, 8, 0, 0, 0, 0, 0], queue_depth = 8, rx_lfsr = 255,
                credits = 8, frames_put = 0, acks_taken = []\<rparr>,
          \<lparr>rx = [], tx = [], clock = [], now = 0, produced = [], log = [Get 8]\<rparr>)
   \<and> crc_16 [0xf6, 0xed, 8, 0, 0, 0] = 0x8df8
   \<and> stream_reader_round False 1000 \<lparr>reader_packet = replicate 8 0, tx_lfsr = 255, acks_put = []\<rparr>
      (example_rpc [0, 0] 255)
      (example_world [([0, 0, 2, 0, 0, 0, 0x78, 0xe3], True), ([0xAA, 0xBB], True)] [True] [])
    = Inr (True,
           \<lparr>reader_packet = [0, 0, 2, 0, 0, 0, 0x78, 0xe3], tx_lfsr = 199, acks_put = [255]\<rparr>,
           (example_rpc [0, 0] 255)\<lparr>buff := [0xAA, 0xBB]\<rparr>,
           \<lparr>rx = [], tx = [], clock = [], now = 0, produced = [],
            log = [Get 8, Get 2, Put [255]]\<rparr>)
   \<and> get_packet 0xEDF6 (replicate 8 0) 8 1000
     (example_world [([0x34, 0x12, 1, 0, 0, 0, 0x50, 0x11], True)] [] [])
   = Inr (False, [0x34, 0x12, 1, 0, 0, 0, 0x50, 0x11],
          \<lparr>rx = [], tx = [], clock = [], now = 0, produced = [], log = [Get 8]\<rparr>)"
  by code_simp

end
